theory Spec2Isabelle
  imports Complex_Main "HOL-Library.AList"
begin

section \<open>Data model of \<open>epic/matrixes/matrixes.py\<close>\<close>

text \<open>
  The module works on pandas tables. A table indexed by \<open>(Chromosome, Bin)\<close> is a list
  of rows in table order; a row is its index key and one cell per column. A cell is an
  integer count or missing (pandas \<open>NaN\<close>, here \<open>None\<close>). The sample tables handed to
  the module carry \<open>Chromosome\<close> and \<open>Bin\<close> as ordinary columns and the code moves them
  into the index with \<open>set_index\<close>; in the model the key is the first component of a row
  from the start, so \<open>set_index\<close> (and the \<open>astype\<close> coercions to category and int, which
  change no value) are the identity. Duplicate keys are kept, as pandas keeps them.
  Counts are read counts, so cells are integers (pandas stores them as floats once a
  column holds a \<open>NaN\<close>; the values stay integral).
\<close>

datatype error = KeyError | ValueError

type_synonym key = "string \<times> int"
type_synonym cell = "int option"
type_synonym row = "key \<times> cell list"

record frame =
  columns :: "string list"
  rows :: "row list"

text \<open>A row of the differential-analysis table (the columns the module reads).\<close>

record region =
  Chromosome :: string
  Start :: int
  End :: int
  FDR :: real

text \<open>
  The configuration bundle \<open>args\<close>. The field \<open>args.bedgraph\<close> is called
  \<open>bedgraph_folder\<close> here, since \<open>bedgraph\<close> is also the name of a function.
\<close>

record args =
  false_discovery_rate_cutoff :: real
  window_size :: int
  treatment :: "string list"
  control :: "string list"
  store_matrix :: "string option"
  individual_bedgraph :: "string option"
  bedgraph_folder :: "string option"

section \<open>Python's \<open>range\<close>\<close>

text \<open>
  \<open>range(start, stop, step)\<close>: counting up while below \<open>stop\<close> for a positive step,
  counting down while above \<open>stop\<close> for a negative one, \<open>ValueError\<close> for step 0.
\<close>

function range_up :: "int \<Rightarrow> int \<Rightarrow> int \<Rightarrow> int list" where
  "range_up i stop step =
     (if 0 < step \<and> i < stop then i # range_up (i + step) stop step else [])"
  by pat_completeness auto
termination
  by (relation "measure (\<lambda>(i, stop, step). nat (stop - i))") auto

function range_down :: "int \<Rightarrow> int \<Rightarrow> int \<Rightarrow> int list" where
  "range_down i stop step =
     (if step < 0 \<and> stop < i then i # range_down (i + step) stop step else [])"
  by pat_completeness auto
termination
  by (relation "measure (\<lambda>(i, stop, step). nat (i - stop))") auto

declare range_up.simps [simp del] range_down.simps [simp del]

definition py_range :: "int \<Rightarrow> int \<Rightarrow> int \<Rightarrow> error + int list" where
  "py_range start stop step =
     (if step = 0 then Inl ValueError
      else if 0 < step then Inr (range_up start stop step)
      else Inr (range_down start stop step))"

section \<open>The Enriched-Bin Indexer: \<open>enriched_bins\<close>\<close>

text \<open>
  The inner loop of \<open>enriched_bins\<close>: one dict
  \<open>{"Chromosome": row.Chromosome, "Bin": bin, "Island": 1}\<close> per bin of
  \<open>range(int(row.Start), int(row.End) + 2, int(args.window_size))\<close>.
\<close>

definition row_rowdicts :: "region \<Rightarrow> int \<Rightarrow> error + row list" where
  "row_rowdicts r w =
     (case py_range (Start r) (End r + 2) w of
        Inl e \<Rightarrow> Inl e
      | Inr bins \<Rightarrow> Inr (map (\<lambda>b. ((Chromosome r, b), [Some 1])) bins))"

text \<open>The outer loop over \<open>df.iterrows()\<close>, appending to \<open>idx_rowdicts\<close>.\<close>

fun idx_rowdicts :: "region list \<Rightarrow> int \<Rightarrow> error + row list" where
  "idx_rowdicts [] w = Inr []"
| "idx_rowdicts (r # rs) w =
     (case row_rowdicts r w of
        Inl e \<Rightarrow> Inl e
      | Inr ds \<Rightarrow>
          (case idx_rowdicts rs w of
             Inl e \<Rightarrow> Inl e
           | Inr rest \<Rightarrow> Inr (ds @ rest)))"

text \<open>
  \<open>pd.DataFrame.from_dict\<close> of a list of dicts has the dicts' keys as columns, so the
  frame of an empty list has no column at all, and \<open>islands.loc[:, "Chromosome"]\<close> on it
  raises \<open>KeyError\<close>. Otherwise the two \<open>astype\<close> results are discarded and
  \<open>set_index\<close> leaves the single column \<open>Island\<close>, every row kept.
\<close>

definition enriched_bins :: "region list \<Rightarrow> args \<Rightarrow> error + frame" where
  "enriched_bins df a =
     (case idx_rowdicts (filter (\<lambda>r. FDR r < false_discovery_rate_cutoff a) df)
             (window_size a) of
        Inl e \<Rightarrow> Inl e
      | Inr ds \<Rightarrow>
          if ds = [] then Inl KeyError
          else Inr \<lparr>columns = [''Island''], rows = ds\<rparr>)"

section \<open>The Chromosome Partitioner\<close>

text \<open>
  A Python dict is an association list: \<open>AList.update\<close> overwrites the value of a key
  that is present and appends a new key, \<open>map_of\<close> looks a key up. A table is
  \<open>empty\<close> when it has no row (a sample table always has its \<open>Chromosome\<close> and \<open>Bin\<close>
  columns); the chromosome of a table is read from its first row.
\<close>

fun put_dfs_loop :: "(string \<times> frame) list \<Rightarrow> frame list \<Rightarrow> (string \<times> frame) list" where
  "put_dfs_loop chromosome_dict [] = chromosome_dict"
| "put_dfs_loop chromosome_dict (df # dfs) =
     (case rows df of
        [] \<Rightarrow> put_dfs_loop chromosome_dict dfs
      | r # _ \<Rightarrow> put_dfs_loop (AList.update (fst (fst r)) df chromosome_dict) dfs)"

definition put_dfs_in_chromosome_dict :: "frame list \<Rightarrow> (string \<times> frame) list" where
  "put_dfs_in_chromosome_dict dfs = put_dfs_loop [] dfs"

text \<open>
  \<open>get_chromosome_df\<close>: the table of the chromosome, or
  \<open>pd.DataFrame(columns="Chromosome Bin".split())\<close>, which has no row and, once the two
  key columns are in the index, no column.
\<close>

definition get_chromosome_df :: "string \<Rightarrow> (string \<times> frame) list \<Rightarrow> frame" where
  "get_chromosome_df chromosome df_dict =
     (case map_of df_dict chromosome of
        Some df \<Rightarrow> df
      | None \<Rightarrow> \<lparr>columns = [], rows = []\<rparr>)"

section \<open>pandas joins on the index\<close>

text \<open>
  \<open>left.join(right, how=...)\<close> joins on the index keys, pairing every row of one side
  with every row of the other side that has the same key (duplicate keys multiply), and
  raises \<open>ValueError\<close> when the two sides share a column name (no suffix is given).
  \<open>how="right"\<close> uses the index of \<open>right\<close>, the argument of \<open>join\<close>: every row of
  \<open>right\<close> is kept, with the cells of \<open>left\<close> missing where \<open>left\<close> has no row of that
  key; rows of \<open>left\<close> whose key is not in \<open>right\<close> are dropped. \<open>how="outer"\<close> uses the
  union of both indexes. The result's columns are those of \<open>left\<close>, then those of
  \<open>right\<close>. The order in which pandas lists the rows of a join is not modelled (an outer
  join sorts the keys): the model lists rows in the order of the side that drives the
  join, and no statement below depends on the order of rows.
\<close>

definition matching :: "frame \<Rightarrow> key \<Rightarrow> cell list list" where
  "matching f k = map snd (filter (\<lambda>r. fst r = k) (rows f))"

definition missing_cells :: "frame \<Rightarrow> cell list" where
  "missing_cells f = replicate (length (columns f)) None"

definition join_right :: "frame \<Rightarrow> frame \<Rightarrow> error + frame" where
  "join_right left right =
     (if set (columns left) \<inter> set (columns right) \<noteq> {} then Inl ValueError
      else Inr \<lparr>columns = columns left @ columns right,
                rows = concat (map (\<lambda>r.
                  case matching left (fst r) of
                    [] \<Rightarrow> [(fst r, missing_cells left @ snd r)]
                  | l # ls \<Rightarrow> map (\<lambda>lc. (fst r, lc @ snd r)) (l # ls)) (rows right))\<rparr>)"

definition join_outer :: "frame \<Rightarrow> frame \<Rightarrow> error + frame" where
  "join_outer left right =
     (if set (columns left) \<inter> set (columns right) \<noteq> {} then Inl ValueError
      else Inr \<lparr>columns = columns left @ columns right,
                rows = concat (map (\<lambda>l.
                  case matching right (fst l) of
                    [] \<Rightarrow> [(fst l, snd l @ missing_cells right)]
                  | r # rs \<Rightarrow> map (\<lambda>rc. (fst l, snd l @ rc)) (r # rs)) (rows left))
                  @ map (\<lambda>r. (fst r, missing_cells left @ snd r))
                      (filter (\<lambda>r. fst r \<notin> fst ` set (rows left)) (rows right))\<rparr>)"

definition fillna :: "int \<Rightarrow> frame \<Rightarrow> frame" where
  "fillna v f =
     \<lparr>columns = columns f,
      rows = map (\<lambda>r. (fst r, map (\<lambda>c. case c of None \<Rightarrow> Some v | Some x \<Rightarrow> Some x) (snd r)))
               (rows f)\<rparr>"

section \<open>The Per-Chromosome Matrix Builder and the orchestrator\<close>

text \<open>
  \<open>_create_matrixes\<close> (an Isabelle name cannot start with an underscore, so it is
  \<open>create_matrixes_chromosome\<close> here): \<open>islands.join(chip_df, how="right")\<close>, then
  \<open>chip_df.join(input_df, how="outer", sort=False).fillna(0)\<close>.
\<close>

definition create_matrixes_chromosome ::
  "string \<Rightarrow> (string \<times> frame) list \<Rightarrow> (string \<times> frame) list \<Rightarrow> frame \<Rightarrow> error + frame" where
  "create_matrixes_chromosome chromosome chip input islands =
     (let chip_df = get_chromosome_df chromosome chip;
          input_df = get_chromosome_df chromosome input
      in case join_right islands chip_df of
           Inl e \<Rightarrow> Inl e
         | Inr chip_df' \<Rightarrow>
             (case join_outer chip_df' input_df of
                Inl e \<Rightarrow> Inl e
              | Inr dfm \<Rightarrow> Inr (fillna 0 dfm)))"

text \<open>
  The worker pool returns the tables in the order of the chromosomes; a task that
  raises aborts the batch.
\<close>

fun collect :: "(error + 'a) list \<Rightarrow> error + 'a list" where
  "collect [] = Inr []"
| "collect (x # xs) =
     (case x of
        Inl e \<Rightarrow> Inl e
      | Inr v \<Rightarrow> (case collect xs of Inl e \<Rightarrow> Inl e | Inr vs \<Rightarrow> Inr (v # vs)))"

text \<open>
  \<open>create_matrixes\<close>. The natural sort of the \<open>natsort\<close> library is a parameter
  (\<open>natsorted\<close>), applied to the chromosomes of both partitions, each once.
\<close>

definition create_matrixes ::
  "(string list \<Rightarrow> string list) \<Rightarrow> frame list \<Rightarrow> frame list \<Rightarrow> region list \<Rightarrow> args
     \<Rightarrow> error + frame list" where
  "create_matrixes natsorted chip input df a =
     (let chip_dict = put_dfs_in_chromosome_dict chip;
          input_dict = put_dfs_in_chromosome_dict input;
          all_chromosomes = natsorted (remdups (map fst chip_dict @ map fst input_dict))
      in case enriched_bins df a of
           Inl e \<Rightarrow> Inl e
         | Inr islands \<Rightarrow>
             collect (map (\<lambda>chromosome.
               create_matrixes_chromosome chromosome chip_dict input_dict islands)
               all_chromosomes))"

section \<open>The Matrix Writer: \<open>print_matrixes\<close>\<close>

text \<open>
  The stored file is a list of lines. \<open>to_csv\<close> with \<open>header=True\<close> writes the names
  of the index levels and of the columns; the first table is written with its header,
  the others are appended without. \<open>astype(int)\<close> raises \<open>ValueError\<close> on a missing
  cell.
\<close>

datatype line = Header "string list" | Data key "int list"

fun astype_int :: "cell list \<Rightarrow> error + int list" where
  "astype_int [] = Inr []"
| "astype_int (None # cs) = Inl ValueError"
| "astype_int (Some v # cs) =
     (case astype_int cs of Inl e \<Rightarrow> Inl e | Inr vs \<Rightarrow> Inr (v # vs))"

definition to_csv_rows :: "frame \<Rightarrow> error + line list" where
  "to_csv_rows df =
     collect (map (\<lambda>r. case astype_int (snd r) of
                          Inl e \<Rightarrow> Inl e
                        | Inr vs \<Rightarrow> Inr (Data (fst r) vs)) (rows df))"

fun print_matrixes_loop :: "nat \<Rightarrow> frame list \<Rightarrow> error + line list" where
  "print_matrixes_loop i [] = Inr []"
| "print_matrixes_loop i (df # dfs) =
     (case to_csv_rows df of
        Inl e \<Rightarrow> Inl e
      | Inr ls \<Rightarrow>
          (case print_matrixes_loop (Suc i) dfs of
             Inl e \<Rightarrow> Inl e
           | Inr rest \<Rightarrow>
               Inr ((if i = 0 then [Header (''Chromosome'' # ''Bin'' # columns df)] else [])
                    @ ls @ rest)))"

definition print_matrixes :: "frame list \<Rightarrow> error + line list" where
  "print_matrixes matrixes = print_matrixes_loop 0 matrixes"

section \<open>Concatenation, column selection and row sums\<close>

text \<open>
  \<open>pd.concat(matrixes, axis=0)\<close> stacks the rows of the tables; the columns are the
  union of the tables' columns (in order of first appearance), and a row of a table
  that lacks a column is missing there. An empty list raises \<open>ValueError\<close>.
\<close>

fun add_columns :: "string list \<Rightarrow> string list \<Rightarrow> string list" where
  "add_columns acc [] = acc"
| "add_columns acc (c # cs) = add_columns (if c \<in> set acc then acc else acc @ [c]) cs"

definition cell_at :: "string list \<Rightarrow> string \<Rightarrow> cell list \<Rightarrow> cell" where
  "cell_at cols name cs = (case map_of (zip cols cs) name of None \<Rightarrow> None | Some c \<Rightarrow> c)"

definition pd_concat :: "frame list \<Rightarrow> error + frame" where
  "pd_concat fs =
     (if fs = [] then Inl ValueError
      else let cols = foldl add_columns [] (map columns fs)
           in Inr \<lparr>columns = cols,
                    rows = concat (map (\<lambda>f.
                      map (\<lambda>r. (fst r, map (\<lambda>c. cell_at (columns f) c (snd r)) cols)) (rows f))
                      fs)\<rparr>)"

text \<open>\<open>matrix.drop(name, axis=1)\<close>: \<open>KeyError\<close> when there is no such column.\<close>

definition drop_column :: "string \<Rightarrow> frame \<Rightarrow> error + frame" where
  "drop_column name f =
     (if name \<notin> set (columns f) then Inl KeyError
      else Inr \<lparr>columns = filter (\<lambda>c. c \<noteq> name) (columns f),
                rows = map (\<lambda>r. (fst r,
                  map snd (filter (\<lambda>p. fst p \<noteq> name) (zip (columns f) (snd r))))) (rows f)\<rparr>)"

text \<open>
  \<open>matrix[name]\<close> is the column as a series of (key, cell); \<open>matrix[names]\<close> is the
  table of the listed columns. Both raise \<open>KeyError\<close> for a name that is no column.
\<close>

definition get_column :: "frame \<Rightarrow> string \<Rightarrow> error + (key \<times> cell) list" where
  "get_column f name =
     (if name \<in> set (columns f)
      then Inr (map (\<lambda>r. (fst r, cell_at (columns f) name (snd r))) (rows f))
      else Inl KeyError)"

definition get_columns :: "frame \<Rightarrow> string list \<Rightarrow> error + frame" where
  "get_columns f names =
     (if set names \<subseteq> set (columns f)
      then Inr \<lparr>columns = names,
                rows = map (\<lambda>r. (fst r, map (\<lambda>n. cell_at (columns f) n (snd r)) names)) (rows f)\<rparr>
      else Inl KeyError)"

text \<open>
  \<open>df.sum(1)\<close>: the sum of each row, with \<open>skipna=True\<close>: missing cells are left out
  of the sum, and the sum of no cell is 0. The counts are 64-bit integers (\<open>int64\<close>) and
  the sum is taken in 64-bit two's complement: it wraps on overflow (\<open>wrap64\<close>, with
  \<open>2^63 = 9223372036854775808\<close> and \<open>2^64 = 18446744073709551616\<close>). Where a selected
  column holds or held a missing value pandas keeps it as \<open>float64\<close>; the sum of
  integers is the same there as long as the absolute values of the cells add up to less
  than \<open>2^53\<close>, and the rounding of larger floating-point sums is not modelled.
\<close>

definition wrap64 :: "int \<Rightarrow> int" where
  "wrap64 x = (x + 9223372036854775808) mod 18446744073709551616 - 9223372036854775808"

definition sum_skipna :: "cell list \<Rightarrow> int" where
  "sum_skipna cs = wrap64 (sum_list (map the (filter (\<lambda>c. c \<noteq> None) cs)))"

definition sum_1 :: "frame \<Rightarrow> (key \<times> int) list" where
  "sum_1 f = map (\<lambda>r. (fst r, sum_skipna (snd r))) (rows f)"

section \<open>The bedgraph exporters\<close>

text \<open>
  \<open>bedgraph\<close> returns the rows written to \<open>treatment.bedgraph\<close> and to
  \<open>input.bedgraph\<close>: key and integer value.
\<close>

definition bedgraph :: "frame \<Rightarrow> args \<Rightarrow> error + ((key \<times> int) list \<times> (key \<times> int) list)" where
  "bedgraph matrix a =
     (case get_columns matrix (treatment a) of
        Inl e \<Rightarrow> Inl e
      | Inr chip_cols \<Rightarrow>
          (let c_sum = sum_1 chip_cols;
               c = filter (\<lambda>p. 0 < snd p) c_sum
           in case get_columns matrix (control a) of
                Inl e \<Rightarrow> Inl e
              | Inr input_cols \<Rightarrow>
                  (let i_sum = sum_1 input_cols;
                       i = filter (\<lambda>p. 0 < snd p) i_sum
                   in Inr (c, i))))"

text \<open>
  \<open>os.path.basename\<close> is what follows the last slash; \<open>str.split(".")\<close> cuts at every
  dot and always returns at least one segment.
\<close>

definition basename :: "string \<Rightarrow> string" where
  "basename p = rev (takeWhile (\<lambda>c. c \<noteq> CHR ''/'') (rev p))"

fun split_on :: "char \<Rightarrow> string \<Rightarrow> string list" where
  "split_on d [] = [[]]"
| "split_on d (c # cs) =
     (if c = d then [] # split_on d cs
      else (case split_on d cs of
              [] \<Rightarrow> [[c]]
            | s # ss \<Rightarrow> (c # s) # ss))"

text \<open>\<open>sep.join(segments)\<close>: the segments with the separator between them.\<close>

fun join_with :: "string \<Rightarrow> string list \<Rightarrow> string" where
  "join_with sep [] = []"
| "join_with sep [s] = s"
| "join_with sep (s # t # ss) = s @ sep @ join_with sep (t # ss)"

text \<open>
  Lines 48 to 53 of \<open>_individual_bedgraphs\<close>: the segments kept (\<open>base[:-2]\<close> or
  \<open>base[:-1]\<close>), and \<open>"".join(...)\<close> of them.
\<close>

definition base_segments :: "string \<Rightarrow> string list" where
  "base_segments name =
     (let base = split_on CHR ''.'' (basename name)
      in if length base > 2 then take (length base - 2) base
         else take (length base - 1) base)"

definition bedgraph_base :: "string \<Rightarrow> string" where
  "bedgraph_base name = join_with [] (base_segments name)"

text \<open>
  \<open>_individual_bedgraphs\<close> (here \<open>individual_bedgraphs_file\<close>) returns the name of the
  file in the output folder and the rows written to it. A row holds a cell: \<open>to_csv\<close>
  is called with \<open>na_rep="NA"\<close>, so a missing cell would be written as the token
  \<open>NA\<close>. \<open>s != 0\<close> is true of a missing cell; \<open>dropna\<close> removes the missing cells.
\<close>

definition dropna :: "(key \<times> cell) list \<Rightarrow> (key \<times> cell) list" where
  "dropna s = filter (\<lambda>p. snd p \<noteq> None) s"

definition individual_bedgraphs_file ::
  "frame \<Rightarrow> string \<Rightarrow> error + (string \<times> (key \<times> cell) list)" where
  "individual_bedgraphs_file matrix name =
     (let base = bedgraph_base name;
          outfile = base @ ''.bedgraph''
      in case get_column matrix name of
           Inl e \<Rightarrow> Inl e
         | Inr s \<Rightarrow>
             (let nonzeroes_only = dropna (filter (\<lambda>p. snd p \<noteq> Some 0) s)
              in Inr (outfile, nonzeroes_only)))"

definition individual_bedgraphs ::
  "frame \<Rightarrow> args \<Rightarrow> error + (string \<times> (key \<times> cell) list) list" where
  "individual_bedgraphs matrix a =
     collect (map (individual_bedgraphs_file matrix) (treatment a)
              @ map (individual_bedgraphs_file matrix) (control a))"

section \<open>The entry point: \<open>write_matrix_files\<close>\<close>

text \<open>
  What a run writes: the stored matrix, the per-file bedgraphs and the two aggregate
  tracks, each present when its option is set. An option is set when it is a
  non-empty string (Python's truth value of \<open>None\<close> and of \<open>""\<close> is false).
\<close>

record outputs =
  stored_matrix :: "line list option"
  individual_files :: "(string \<times> (key \<times> cell) list) list option"
  bedgraph_files :: "((key \<times> int) list \<times> (key \<times> int) list) option"

definition is_set :: "string option \<Rightarrow> bool" where
  "is_set opt = (case opt of None \<Rightarrow> False | Some s \<Rightarrow> s \<noteq> [])"

definition optional :: "bool \<Rightarrow> error + 'a \<Rightarrow> error + 'a option" where
  "optional b x = (if b then (case x of Inl e \<Rightarrow> Inl e | Inr v \<Rightarrow> Inr (Some v)) else Inr None)"

definition write_matrix_files ::
  "(string list \<Rightarrow> string list) \<Rightarrow> frame list \<Rightarrow> frame list \<Rightarrow> region list \<Rightarrow> args
     \<Rightarrow> error + outputs" where
  "write_matrix_files natsorted chip_merged input_merged df a =
     (case create_matrixes natsorted chip_merged input_merged df a of
        Inl e \<Rightarrow> Inl e
      | Inr matrixes \<Rightarrow>
     (case optional (is_set (store_matrix a)) (print_matrixes matrixes) of
        Inl e \<Rightarrow> Inl e
      | Inr stored \<Rightarrow>
     (case pd_concat matrixes of
        Inl e \<Rightarrow> Inl e
      | Inr matrix0 \<Rightarrow>
     (case drop_column ''Island'' matrix0 of
        Inl e \<Rightarrow> Inl e
      | Inr matrix \<Rightarrow>
     (case optional (is_set (individual_bedgraph a)) (individual_bedgraphs matrix a) of
        Inl e \<Rightarrow> Inl e
      | Inr individual \<Rightarrow>
     (case optional (is_set (bedgraph_folder a)) (bedgraph matrix a) of
        Inl e \<Rightarrow> Inl e
      | Inr aggregate \<Rightarrow>
          Inr \<lparr>stored_matrix = stored, individual_files = individual,
                bedgraph_files = aggregate\<rparr>))))))"

section \<open>The row-wise sum, as the specification words it\<close>


section \<open>Example inputs\<close>

text \<open>
  Small inputs on which the functions are evaluated below: a configuration with a
  cutoff of 0.05 and a window of 100, regions of \<open>chr1\<close> and \<open>chr2\<close> with FDR 0.01
  (one of them, \<open>region_chr1_rejected\<close>, with FDR 0.5), treatment tables with the
  column \<open>t.bed\<close> and a control table with the column \<open>c.bed\<close>.
\<close>

definition example_args :: args where
  "example_args =
     \<lparr>false_discovery_rate_cutoff = 5 / 100, window_size = 100, treatment = [''t.bed''],
      control = [''c.bed''], store_matrix = Some ''matrix.gz'',
      individual_bedgraph = Some ''individual'', bedgraph_folder = Some ''bedgraph''\<rparr>"

definition region_chr1 :: region where
  "region_chr1 = \<lparr>Chromosome = ''chr1'', Start = 100, End = 250, FDR = 1 / 100\<rparr>"

definition region_chr1_rejected :: region where
  "region_chr1_rejected = \<lparr>Chromosome = ''chr1'', Start = 100, End = 250, FDR = 1 / 2\<rparr>"

definition region_chr1_overlap :: region where
  "region_chr1_overlap = \<lparr>Chromosome = ''chr1'', Start = 200, End = 350, FDR = 1 / 100\<rparr>"

definition region_chr2 :: region where
  "region_chr2 = \<lparr>Chromosome = ''chr2'', Start = 100, End = 250, FDR = 1 / 100\<rparr>"

definition treatment_chr1 :: frame where
  "treatment_chr1 =
     \<lparr>columns = [''t.bed''],
      rows = [((''chr1'', 100), [Some 5]), ((''chr1'', 300), [Some 3])]\<rparr>"

definition control_chr1 :: frame where
  "control_chr1 = \<lparr>columns = [''c.bed''], rows = [((''chr1'', 100), [Some 1])]\<rparr>"

definition treatment_chr1_bin200 :: frame where
  "treatment_chr1_bin200 = \<lparr>columns = [''t.bed''], rows = [((''chr1'', 200), [Some 5])]\<rparr>"

text \<open>
  Two per-chromosome tables as the matrix builder returns them (\<open>chr2\<close> has no
  treatment table, so its table has no \<open>t.bed\<close> column), and their concatenation
  without the \<open>Island\<close> column.
\<close>

definition matrix_chr1 :: frame where
  "matrix_chr1 =
     \<lparr>columns = [''Island'', ''t.bed'', ''c.bed''],
      rows = [((''chr1'', 100), [Some 1, Some 5, Some 0]),
              ((''chr1'', 300), [Some 0, Some 0, Some 2])]\<rparr>"

definition matrix_chr2 :: frame where
  "matrix_chr2 =
     \<lparr>columns = [''Island'', ''c.bed''], rows = [((''chr2'', 100), [Some 0, Some 7])]\<rparr>"

definition matrix_with_missing :: frame where
  "matrix_with_missing =
     \<lparr>columns = [''t.bed'', ''c.bed''],
      rows = [((''chr1'', 100), [Some 5, Some 0]),
              ((''chr1'', 300), [Some 0, Some 2]),
              ((''chr2'', 100), [None, Some 7])]\<rparr>"

text \<open>
  A configuration with two treatment files, and a matrix whose two treatment counts at
  bin 100 are \<open>2^62 = 4611686018427387904\<close> each.
\<close>

definition example_args_two :: args where
  "example_args_two =
     \<lparr>false_discovery_rate_cutoff = 5 / 100, window_size = 100,
      treatment = [''t1.bed'', ''t2.bed''], control = [''c.bed''], store_matrix = None,
      individual_bedgraph = None, bedgraph_folder = Some ''bedgraph''\<rparr>"

definition matrix_large :: frame where
  "matrix_large =
     \<lparr>columns = [''t1.bed'', ''t2.bed'', ''c.bed''],
      rows = [((''chr1'', 100),
               [Some 4611686018427387904, Some 4611686018427387904, Some 1])]\<rparr>"

section \<open>The bins of a region\<close>

lemma range_up_nil: "\<not> (0 < step \<and> i < stop) \<Longrightarrow> range_up i stop step = []"
  by (subst range_up.simps) simp

lemma range_up_cons:
  "0 < step \<Longrightarrow> i < stop \<Longrightarrow> range_up i stop step = i # range_up (i + step) stop step"
  by (subst range_up.simps) simp

lemma range_up_progression:
  "0 < step \<Longrightarrow>
   range_up i stop step = map (\<lambda>k. i + int k * step) [0..<length (range_up i stop step)]"
proof (induction i stop step rule: range_up.induct)
  case (1 i stop step)
  show ?case
  proof (cases "i < stop")
    case False
    then show ?thesis by (simp add: range_up_nil)
  next
    case True
    let ?t = "range_up (i + step) stop step"
    have ih: "?t = map (\<lambda>k. (i + step) + int k * step) [0..<length ?t]"
      using 1 True by simp
    have "map (\<lambda>k. i + int k * step) [0..<Suc (length ?t)]
            = i # map (\<lambda>k. i + int (Suc k) * step) [0..<length ?t]"
      by (simp add: upt_conv_Cons map_Suc_upt [symmetric] del: upt_Suc)
    also have "map (\<lambda>k. i + int (Suc k) * step) [0..<length ?t] = ?t"
      by (subst (2) ih) (simp add: algebra_simps)
    finally show ?thesis
      using 1(2) True by (simp add: range_up_cons del: upt_Suc)
  qed
qed

lemma range_up_below: "b \<in> set (range_up i stop step) \<Longrightarrow> b < stop"
  by (induction i stop step rule: range_up.induct)
     (subst (asm) (2) range_up.simps, auto split: if_splits)

lemma range_up_mem:
  "0 < step \<Longrightarrow> i + int k * step < stop \<Longrightarrow> i + int k * step \<in> set (range_up i stop step)"
proof (induction k arbitrary: i)
  case 0
  then show ?case by (simp add: range_up_cons)
next
  case (Suc k)
  have nonneg: "0 \<le> int k * step" using Suc.prems(1) by simp
  have split: "i + int (Suc k) * step = i + step + int k * step"
    by (simp add: algebra_simps)
  have "i < stop" using Suc.prems nonneg split by linarith
  moreover have "(i + step) + int k * step \<in> set (range_up (i + step) stop step)"
    using Suc.prems by (intro Suc.IH) (simp_all add: algebra_simps)
  ultimately show ?case using Suc.prems by (simp add: range_up_cons algebra_simps)
qed

lemma range_up_set:
  assumes "0 < step"
  shows "set (range_up i stop step) = {b. (\<exists>k::nat. b = i + int k * step) \<and> b < stop}"
proof (intro set_eqI iffI)
  fix b assume b: "b \<in> set (range_up i stop step)"
  then obtain n where n: "n < length (range_up i stop step)" "b = range_up i stop step ! n"
    by (auto simp: in_set_conv_nth)
  have "range_up i stop step ! n
          = map (\<lambda>k. i + int k * step) [0..<length (range_up i stop step)] ! n"
    using range_up_progression [OF assms, of i stop] by simp
  then have "b = i + int n * step"
    using n by simp
  then show "b \<in> {b. (\<exists>k::nat. b = i + int k * step) \<and> b < stop}"
    using range_up_below [OF b] by blast
next
  fix b assume "b \<in> {b. (\<exists>k::nat. b = i + int k * step) \<and> b < stop}"
  then show "b \<in> set (range_up i stop step)"
    using assms range_up_mem by blast
qed

lemma range_up_empty_iff: "0 < step \<Longrightarrow> range_up i stop step = [] \<longleftrightarrow> \<not> i < stop"
  by (subst range_up.simps) simp

lemma row_rowdicts_up:
  "0 < w \<Longrightarrow> row_rowdicts r w
     = Inr (map (\<lambda>b. ((Chromosome r, b), [Some 1])) (range_up (Start r) (End r + 2) w))"
  by (simp add: row_rowdicts_def py_range_def)

lemma idx_rowdicts_up:
  "0 < w \<Longrightarrow> idx_rowdicts rs w
     = Inr (concat (map (\<lambda>r. map (\<lambda>b. ((Chromosome r, b), [Some 1]))
                                (range_up (Start r) (End r + 2) w)) rs))"
  by (induction rs) (simp_all add: row_rowdicts_up)

lemma concat_map_filter_if:
  "concat (map f (filter P xs)) = concat (map (\<lambda>x. if P x then f x else []) xs)"
  by (induction xs) simp_all

lemmas example_defs =
  example_args_def region_chr1_def region_chr1_rejected_def region_chr1_overlap_def region_chr2_def
  treatment_chr1_def control_chr1_def

lemmas eval_defs =
  enriched_bins_def row_rowdicts_def py_range_def range_up.simps
  put_dfs_in_chromosome_dict_def get_chromosome_df_def
  join_right_def join_outer_def matching_def missing_cells_def fillna_def
  create_matrixes_chromosome_def create_matrixes_def

lemma enriched_bins_Inr_rows:
  assumes "0 < window_size a" and "enriched_bins df a = Inr islands"
  shows "rows islands = concat (map (\<lambda>r. map (\<lambda>b. ((Chromosome r, b), [Some 1]))
                                   (range_up (Start r) (End r + 2) (window_size a)))
                          (filter (\<lambda>r. FDR r < false_discovery_rate_cutoff a) df))"
  using assms(2) unfolding enriched_bins_def idx_rowdicts_up [OF assms(1)]
  by (auto split: if_splits)

lemma island_key_iff:
  assumes "0 < window_size a" and "enriched_bins df a = Inr islands"
  shows "(c, b) \<in> fst ` set (rows islands) \<longleftrightarrow>
           (\<exists>r \<in> set df. FDR r < false_discovery_rate_cutoff a \<and> Chromosome r = c
              \<and> b \<in> set (range_up (Start r) (End r + 2) (window_size a)))"
  unfolding enriched_bins_Inr_rows [OF assms] by force

text \<open>
  The index of claim C7 evaluated: the second region has FDR 0.5, above the cutoff,
  and the bins 100 and 200, and both are in the index, through the first region.
\<close>

theorem island_filter_counterexample:
  "enriched_bins [region_chr1, region_chr1_rejected] example_args
     = Inr \<lparr>columns = [''Island''],
            rows = [((''chr1'', 100), [Some 1]), ((''chr1'', 200), [Some 1])]\<rparr>
   \<and> \<not> FDR region_chr1_rejected < false_discovery_rate_cutoff example_args
   \<and> row_rowdicts region_chr1_rejected (window_size example_args)
     = Inr [((''chr1'', 100), [Some 1]), ((''chr1'', 200), [Some 1])]"
  by (simp add: example_defs region_chr1_rejected_def eval_defs)

text \<open>
  Claim C7, as the code has it. With a positive window size, \<open>enriched_bins\<close> returns
  the index whose rows are, region by region in table order, the bins of the region
  when its FDR is strictly below the cutoff and nothing when it is not (it raises
  \<open>KeyError\<close> when no region contributes a bin). So a pair is in the index if and only
  if a region with FDR strictly below the cutoff generates it. The bins of a region
  are the arithmetic progression \<open>Start, Start + window_size, ...\<close> of the values
  strictly below \<open>End + 2\<close>, in this order; for \<open>Start = 100\<close>, \<open>End = 250\<close> and window
  size 100 they are 100 and 200.
\<close>

theorem island_index_entries:
  assumes "0 < window_size a"
  shows "enriched_bins df a =
           (if \<exists>r \<in> set df. FDR r < false_discovery_rate_cutoff a \<and> Start r < End r + 2
            then Inr \<lparr>columns = [''Island''],
                      rows = concat (map (\<lambda>r.
                        if FDR r < false_discovery_rate_cutoff a
                        then map (\<lambda>b. ((Chromosome r, b), [Some 1]))
                               (range_up (Start r) (End r + 2) (window_size a))
                        else []) df)\<rparr>
            else Inl KeyError)
         \<and> (\<forall>islands c b. enriched_bins df a = Inr islands \<longrightarrow>
               ((c, b) \<in> fst ` set (rows islands) \<longleftrightarrow>
                  (\<exists>r \<in> set df. FDR r < false_discovery_rate_cutoff a \<and> Chromosome r = c
                     \<and> b \<in> set (range_up (Start r) (End r + 2) (window_size a)))))
         \<and> (\<forall>r :: region. set (range_up (Start r) (End r + 2) (window_size a))
                  = {b. (\<exists>k::nat. b = Start r + int k * window_size a) \<and> b < End r + 2}
               \<and> range_up (Start r) (End r + 2) (window_size a)
                  = map (\<lambda>k. Start r + int k * window_size a)
                      [0..<length (range_up (Start r) (End r + 2) (window_size a))])
         \<and> row_rowdicts \<lparr>Chromosome = c', Start = 100, End = 250, FDR = f\<rparr> 100
             = Inr [((c', 100), [Some 1]), ((c', 200), [Some 1])]"
proof (intro conjI allI impI)
  let ?P = "\<lambda>r. FDR r < false_discovery_rate_cutoff a"
  let ?f = "\<lambda>r. map (\<lambda>b. ((Chromosome r, b), [Some (1::int)]))
                   (range_up (Start r) (End r + 2) (window_size a))"
  have empty: "concat (map ?f (filter ?P df)) = []
                 \<longleftrightarrow> \<not> (\<exists>r \<in> set df. ?P r \<and> Start r < End r + 2)"
    using assms by (auto simp: range_up_empty_iff)
  show "enriched_bins df a =
           (if \<exists>r \<in> set df. ?P r \<and> Start r < End r + 2
            then Inr \<lparr>columns = [''Island''],
                      rows = concat (map (\<lambda>r. if ?P r then ?f r else []) df)\<rparr>
            else Inl KeyError)"
    unfolding enriched_bins_def idx_rowdicts_up [OF assms] sum.case empty
    by (simp add: concat_map_filter_if)
next
  fix islands c b
  assume "enriched_bins df a = Inr islands"
  then show "(c, b) \<in> fst ` set (rows islands) \<longleftrightarrow>
                  (\<exists>r \<in> set df. FDR r < false_discovery_rate_cutoff a \<and> Chromosome r = c
                     \<and> b \<in> set (range_up (Start r) (End r + 2) (window_size a)))"
    by (rule island_key_iff [OF assms])
next
  fix r :: region
  show "set (range_up (Start r) (End r + 2) (window_size a))
          = {b. (\<exists>k::nat. b = Start r + int k * window_size a) \<and> b < End r + 2}"
    by (rule range_up_set [OF assms])
  show "range_up (Start r) (End r + 2) (window_size a)
          = map (\<lambda>k. Start r + int k * window_size a)
              [0..<length (range_up (Start r) (End r + 2) (window_size a))]"
    by (rule range_up_progression [OF assms])
next
  show "row_rowdicts \<lparr>Chromosome = c', Start = 100, End = 250, FDR = f\<rparr> 100
          = Inr [((c', 100), [Some 1]), ((c', 200), [Some 1])]"
    by (simp add: row_rowdicts_def py_range_def range_up.simps)
qed

theorem island_index_entries_witness:
  "(0::int) < window_size example_args
   \<and> enriched_bins [region_chr1, region_chr1_rejected] example_args
     = Inr \<lparr>columns = [''Island''],
            rows = [((''chr1'', 100), [Some 1]), ((''chr1'', 200), [Some 1])]\<rparr>"
proof -
  have h: "(0::int) < window_size example_args" by (simp add: example_defs)
  show ?thesis
    using h island_index_entries [OF h, of "[region_chr1, region_chr1_rejected]", THEN conjunct1]
    by (simp add: example_defs region_chr1_rejected_def range_up.simps)
qed

text \<open>
  Claim C3. When no region has an FDR below the cutoff, \<open>enriched_bins\<close> does not
  return an empty index: the table built from the empty list of dicts has no
  \<open>Chromosome\<close> column and the lookup raises \<open>KeyError\<close>, which aborts
  \<open>write_matrix_files\<close> as well.
\<close>

theorem enriched_bins_no_survivor:
  "enriched_bins
     [\<lparr>Chromosome = ''chr1'', Start = 100, End = 250, FDR = 1 / 2\<rparr>]
     \<lparr>false_discovery_rate_cutoff = 5 / 100, window_size = 100, treatment = [''t.bed''],
      control = [''c.bed''], store_matrix = None, individual_bedgraph = None,
      bedgraph_folder = Some ''out''\<rparr>
     = Inl KeyError
   \<and> write_matrix_files natsorted
       [\<lparr>columns = [''t.bed''], rows = [((''chr1'', 100), [Some 5])]\<rparr>]
       [\<lparr>columns = [''c.bed''], rows = [((''chr1'', 100), [Some 1])]\<rparr>]
       [\<lparr>Chromosome = ''chr1'', Start = 100, End = 250, FDR = 1 / 2\<rparr>]
       \<lparr>false_discovery_rate_cutoff = 5 / 100, window_size = 100, treatment = [''t.bed''],
        control = [''c.bed''], store_matrix = None, individual_bedgraph = None,
        bedgraph_folder = Some ''out''\<rparr>
     = Inl KeyError"
  by (simp add: write_matrix_files_def create_matrixes_def enriched_bins_def)

section \<open>The right join of the treatment table\<close>

lemma row_rowdicts_cells:
  "row_rowdicts r w = Inr ds \<Longrightarrow> x \<in> set ds \<Longrightarrow> snd x = [Some 1]"
  by (auto simp: row_rowdicts_def split: sum.splits)

lemma idx_rowdicts_cells:
  "idx_rowdicts rs w = Inr ds \<Longrightarrow> x \<in> set ds \<Longrightarrow> snd x = [Some 1]"
proof (induction rs arbitrary: ds)
  case Nil
  then show ?case by simp
next
  case (Cons r rs)
  then show ?case
    by (auto split: sum.splits dest: row_rowdicts_cells)
qed

lemma enriched_bins_shape:
  assumes "enriched_bins df a = Inr islands"
  shows "columns islands = [''Island'']" and "x \<in> set (rows islands) \<Longrightarrow> snd x = [Some 1]"
  using assms
  by (auto simp: enriched_bins_def split: sum.splits if_splits dest: idx_rowdicts_cells)

lemma join_right_columns:
  "join_right l r = Inr f \<Longrightarrow> columns f = columns l @ columns r"
  by (auto simp: join_right_def split: if_splits)

lemma in_concat_map: "y \<in> set (concat (map g xs)) \<longleftrightarrow> (\<exists>x \<in> set xs. y \<in> set (g x))"
  by auto

lemma list_case_if:
  "(case xs of [] \<Rightarrow> a | c # cs \<Rightarrow> g (c # cs)) = (if xs = [] then a else g xs)"
  by (cases xs) simp_all

lemma join_right_rows:
  "join_right l r = Inr f \<Longrightarrow>
   rows f = concat (map (\<lambda>x. if matching l (fst x) = []
                               then [(fst x, missing_cells l @ snd x)]
                               else map (\<lambda>lc. (fst x, lc @ snd x)) (matching l (fst x))) (rows r))"
  by (auto simp: join_right_def list_case_if split: if_splits)

lemma matching_Nil_iff: "matching l k = [] \<longleftrightarrow> k \<notin> fst ` set (rows l)"
  by (auto simp: matching_def filter_empty_conv)

lemma matching_set: "c \<in> set (matching l k) \<longleftrightarrow> (k, c) \<in> set (rows l)"
  by (force simp: matching_def)

lemma join_right_row_iff:
  assumes "join_right l r = Inr f"
  shows "(k, cs) \<in> set (rows f) \<longleftrightarrow>
           (\<exists>rc. (k, rc) \<in> set (rows r) \<and>
              (if k \<in> fst ` set (rows l) then \<exists>lc. (k, lc) \<in> set (rows l) \<and> cs = lc @ rc
               else cs = missing_cells l @ rc))"
proof -
  have step: "(k, cs) \<in> set (if matching l k' = []
                               then [(k', missing_cells l @ rc)]
                               else map (\<lambda>lc. (k', lc @ rc)) (matching l k'))
          \<longleftrightarrow> (k' = k \<and>
              (if k \<in> fst ` set (rows l) then \<exists>lc. (k, lc) \<in> set (rows l) \<and> cs = lc @ rc
               else cs = missing_cells l @ rc))" for k' rc
  proof (cases "k' \<in> fst ` set (rows l)")
    case True
    then have "matching l k' \<noteq> []" by (simp add: matching_Nil_iff)
    then show ?thesis using True by (auto simp: matching_set)
  next
    case False
    then have "matching l k' = []" by (simp add: matching_Nil_iff)
    then show ?thesis using False by auto
  qed
  have "(k, cs) \<in> set (rows f) \<longleftrightarrow>
          (\<exists>x \<in> set (rows r). (k, cs) \<in> set (if matching l (fst x) = []
                               then [(fst x, missing_cells l @ snd x)]
                               else map (\<lambda>lc. (fst x, lc @ snd x)) (matching l (fst x))))"
    by (subst join_right_rows [OF assms]) (rule in_concat_map)
  also have "\<dots> \<longleftrightarrow> (\<exists>x \<in> set (rows r). fst x = k \<and>
              (if k \<in> fst ` set (rows l) then \<exists>lc. (k, lc) \<in> set (rows l) \<and> cs = lc @ snd x
               else cs = missing_cells l @ snd x))"
    unfolding step ..
  also have "\<dots> \<longleftrightarrow> (\<exists>rc. (k, rc) \<in> set (rows r) \<and>
              (if k \<in> fst ` set (rows l) then \<exists>lc. (k, lc) \<in> set (rows l) \<and> cs = lc @ rc
               else cs = missing_cells l @ rc))"
    (is "(\<exists>x \<in> set (rows r). fst x = k \<and> ?Q (snd x)) \<longleftrightarrow> (\<exists>rc. (k, rc) \<in> set (rows r) \<and> ?Q rc)")
  proof
    assume "\<exists>x \<in> set (rows r). fst x = k \<and> ?Q (snd x)"
    then obtain x where x: "x \<in> set (rows r)" "fst x = k" "?Q (snd x)" by blast
    have "(k, snd x) \<in> set (rows r)" using x(1,2) by (metis prod.collapse)
    then have "(k, snd x) \<in> set (rows r) \<and> ?Q (snd x)" using x(3) by (rule conjI)
    then show "\<exists>rc. (k, rc) \<in> set (rows r) \<and> ?Q rc" ..
  next
    assume "\<exists>rc. (k, rc) \<in> set (rows r) \<and> ?Q rc"
    then obtain rc where "(k, rc) \<in> set (rows r)" "?Q rc" by blast
    then have "(k, rc) \<in> set (rows r) \<and> fst (k, rc) = k \<and> ?Q (snd (k, rc))" by simp
    then show "\<exists>x \<in> set (rows r). fst x = k \<and> ?Q (snd x)" by blast
  qed
  finally show ?thesis .
qed

lemma key_in_keys: "(k, cs) \<in> set rs \<Longrightarrow> k \<in> fst ` set rs"
  using image_eqI [of k fst "(k, cs)" "set rs"] by simp

lemma keys_obtain: "k \<in> fst ` set rs \<Longrightarrow> \<exists>cs. (k, cs) \<in> set rs"
proof -
  assume "k \<in> fst ` set rs"
  then obtain x where "x \<in> set rs" "k = fst x" by (rule imageE)
  then have "(k, snd x) \<in> set rs" by simp
  then show ?thesis ..
qed

lemma join_right_intro_match:
  assumes "join_right l r = Inr f" and rc: "(k, rc) \<in> set (rows r)" and lc: "(k, lc) \<in> set (rows l)"
  shows "(k, lc @ rc) \<in> set (rows f)"
proof -
  have T: "k \<in> fst ` set (rows l)" using lc by (rule key_in_keys)
  have "\<exists>lc'. (k, lc') \<in> set (rows l) \<and> lc @ rc = lc' @ rc" using lc by blast
  then have "(k, rc) \<in> set (rows r) \<and>
              (if k \<in> fst ` set (rows l) then \<exists>lc'. (k, lc') \<in> set (rows l) \<and> lc @ rc = lc' @ rc
               else lc @ rc = missing_cells l @ rc)"
    using rc T by simp
  then show ?thesis
    unfolding join_right_row_iff [OF assms(1)] ..
qed

lemma join_right_intro_miss:
  assumes "join_right l r = Inr f" and rc: "(k, rc) \<in> set (rows r)" and F: "k \<notin> fst ` set (rows l)"
  shows "(k, missing_cells l @ rc) \<in> set (rows f)"
proof -
  have "(k, rc) \<in> set (rows r) \<and>
              (if k \<in> fst ` set (rows l) then \<exists>lc'. (k, lc') \<in> set (rows l) \<and> missing_cells l @ rc = lc' @ rc
               else missing_cells l @ rc = missing_cells l @ rc)"
    using rc F by simp
  then show ?thesis
    unfolding join_right_row_iff [OF assms(1)] ..
qed

lemma join_right_keys:
  assumes "join_right l r = Inr f"
  shows "fst ` set (rows f) = fst ` set (rows r)"
proof (rule set_eqI, rule iffI)
  fix k assume "k \<in> fst ` set (rows f)"
  then have "\<exists>cs. (k, cs) \<in> set (rows f)" by (rule keys_obtain)
  then obtain cs where cs: "(k, cs) \<in> set (rows f)" ..
  have "\<exists>rc. (k, rc) \<in> set (rows r) \<and>
              (if k \<in> fst ` set (rows l) then \<exists>lc. (k, lc) \<in> set (rows l) \<and> cs = lc @ rc
               else cs = missing_cells l @ rc)"
    by (rule iffD1 [OF join_right_row_iff [OF assms] cs])
  then obtain rc where "(k, rc) \<in> set (rows r)" by (elim exE conjE)
  then show "k \<in> fst ` set (rows r)" by (rule key_in_keys)
next
  fix k assume "k \<in> fst ` set (rows r)"
  then have "\<exists>rc. (k, rc) \<in> set (rows r)" by (rule keys_obtain)
  then obtain rc where rc: "(k, rc) \<in> set (rows r)" ..
  show "k \<in> fst ` set (rows f)"
  proof (cases "k \<in> fst ` set (rows l)")
    case True
    then have "\<exists>lc. (k, lc) \<in> set (rows l)" by (rule keys_obtain)
    then obtain lc where lc: "(k, lc) \<in> set (rows l)" ..
    show ?thesis
      by (rule key_in_keys [OF join_right_intro_match [OF assms rc lc]])
  next
    case False
    show ?thesis
      by (rule key_in_keys [OF join_right_intro_miss [OF assms rc False]])
  qed
qed

text \<open>
  The join of claim C1 evaluated: with island bins 100 and 200 on \<open>chr1\<close> and
  treatment rows at bins 100 and 300, the result of \<open>islands.join(chip_df, how="right")\<close>
  has the rows of the treatment table. The island bin 200 is not in the result, and
  bin 300, which is no island bin, is kept with a missing \<open>Island\<close> cell.
\<close>

theorem treatment_join_counterexample:
  "enriched_bins [region_chr1] example_args
     = Inr \<lparr>columns = [''Island''],
            rows = [((''chr1'', 100), [Some 1]), ((''chr1'', 200), [Some 1])]\<rparr>
   \<and> join_right
       \<lparr>columns = [''Island''],
        rows = [((''chr1'', 100), [Some 1]), ((''chr1'', 200), [Some 1])]\<rparr>
       (get_chromosome_df ''chr1'' (put_dfs_in_chromosome_dict [treatment_chr1]))
     = Inr \<lparr>columns = [''Island'', ''t.bed''],
            rows = [((''chr1'', 100), [Some 1, Some 5]), ((''chr1'', 300), [None, Some 3])]\<rparr>
   \<and> (''chr1'', 200) \<notin> fst ` set [((''chr1'', 100 :: int), [Some (1 :: int), Some 5]),
                                         ((''chr1'', 300), [None, Some 3])]
   \<and> (''chr1'', 300) \<notin> fst ` set [((''chr1'', 100 :: int), [Some (1 :: int)]),
                                         ((''chr1'', 200), [Some 1])]"
  by (simp add: example_defs eval_defs)

text \<open>
  Claim C1, as the code has it. \<open>islands.join(chip_df, how="right")\<close> keeps the index
  of \<open>chip_df\<close>: the keys of the result are the keys of the treatment table of the
  chromosome, and its rows are the treatment rows, each with the \<open>Island\<close> cell in front:
  1 when the key is an island bin, missing (filled with 0 later) when it is not. Island
  bins without a treatment row are not in the result.
\<close>

theorem treatment_join_keeps_treatment_rows:
  assumes "enriched_bins df a = Inr islands"
    and "join_right islands (get_chromosome_df chromosome chip) = Inr chip_df"
  shows "fst ` set (rows chip_df) = fst ` set (rows (get_chromosome_df chromosome chip))
       \<and> (\<forall>k cells. (k, cells) \<in> set (rows chip_df) \<longleftrightarrow>
            (\<exists>counts. (k, counts) \<in> set (rows (get_chromosome_df chromosome chip))
               \<and> cells = (if k \<in> fst ` set (rows islands) then Some 1 else None) # counts))"
proof (intro conjI allI)
  show "fst ` set (rows chip_df) = fst ` set (rows (get_chromosome_df chromosome chip))"
    by (rule join_right_keys [OF assms(2)])
next
  fix k cells
  have one: "(k, lc) \<in> set (rows islands) \<longleftrightarrow> k \<in> fst ` set (rows islands) \<and> lc = [Some 1]"
    for lc
  proof
    assume m: "(k, lc) \<in> set (rows islands)"
    have "snd (k, lc) = [Some 1]" by (rule enriched_bins_shape(2) [OF assms(1) m])
    then show "k \<in> fst ` set (rows islands) \<and> lc = [Some 1]"
      using key_in_keys [OF m] by simp
  next
    assume h: "k \<in> fst ` set (rows islands) \<and> lc = [Some 1]"
    then have "\<exists>cs. (k, cs) \<in> set (rows islands)" by (intro keys_obtain) simp
    then obtain cs where m: "(k, cs) \<in> set (rows islands)" ..
    have "snd (k, cs) = [Some 1]" by (rule enriched_bins_shape(2) [OF assms(1) m])
    then show "(k, lc) \<in> set (rows islands)" using m h by simp
  qed
  have miss: "missing_cells islands = [None]"
    by (simp add: missing_cells_def enriched_bins_shape(1) [OF assms(1)])
  let ?T = "rows (get_chromosome_df chromosome chip)"
  show "(k, cells) \<in> set (rows chip_df) \<longleftrightarrow>
            (\<exists>counts. (k, counts) \<in> set ?T
               \<and> cells = (if k \<in> fst ` set (rows islands) then Some 1 else None) # counts)"
  proof (cases "k \<in> fst ` set (rows islands)")
    case True
    then show ?thesis
      unfolding join_right_row_iff [OF assms(2)] one by simp
  next
    case False
    then show ?thesis
      unfolding join_right_row_iff [OF assms(2)] miss by simp
  qed
qed

theorem treatment_join_keeps_treatment_rows_witness:
  "enriched_bins [region_chr1] example_args
     = Inr \<lparr>columns = [''Island''],
            rows = [((''chr1'', 100), [Some 1]), ((''chr1'', 200), [Some 1])]\<rparr>
   \<and> join_right
       \<lparr>columns = [''Island''],
        rows = [((''chr1'', 100), [Some 1]), ((''chr1'', 200), [Some 1])]\<rparr>
       (get_chromosome_df ''chr1'' (put_dfs_in_chromosome_dict [treatment_chr1]))
     = Inr \<lparr>columns = [''Island'', ''t.bed''],
            rows = [((''chr1'', 100), [Some 1, Some 5]), ((''chr1'', 300), [None, Some 3])]\<rparr>
   \<and> fst ` set (rows \<lparr>columns = [''Island'', ''t.bed''],
            rows = [((''chr1'', 100), [Some 1, Some 5]), ((''chr1'', 300), [None, Some 3])]\<rparr>)
     = fst ` set (rows (get_chromosome_df ''chr1'' (put_dfs_in_chromosome_dict [treatment_chr1])))"
proof -
  have h1: "enriched_bins [region_chr1] example_args
     = Inr \<lparr>columns = [''Island''],
            rows = [((''chr1'', 100), [Some 1]), ((''chr1'', 200), [Some 1])]\<rparr>"
    by (simp add: example_defs eval_defs)
  have h2: "join_right
       \<lparr>columns = [''Island''],
        rows = [((''chr1'', 100), [Some 1]), ((''chr1'', 200), [Some 1])]\<rparr>
       (get_chromosome_df ''chr1'' (put_dfs_in_chromosome_dict [treatment_chr1]))
     = Inr \<lparr>columns = [''Island'', ''t.bed''],
            rows = [((''chr1'', 100), [Some 1, Some 5]), ((''chr1'', 300), [None, Some 3])]\<rparr>"
    by (simp add: example_defs eval_defs)
  show ?thesis
    using h1 h2 treatment_join_keeps_treatment_rows [OF h1 h2, THEN conjunct1] by blast
qed

section \<open>How often a key occurs in a join\<close>

lemma count_list_replicate: "count_list (replicate n a) k = (if a = k then n else 0)"
  by (induction n) (auto split: if_splits)

lemma count_keys_concat:
  "count_list (map fst (concat (map G xs))) k = (\<Sum>x\<leftarrow>xs. count_list (map fst (G x)) k)"
  by (induction xs) simp_all

lemma sum_if_key:
  "(\<Sum>x\<leftarrow>xs. if fst x = k then c else 0) = count_list (map fst xs) k * (c :: nat)"
  by (induction xs) simp_all

lemma length_matching: "length (matching f k) = count_list (map fst (rows f)) k"
proof -
  have "length (filter (\<lambda>r. fst r = k) xs) = count_list (map fst xs) k" for xs :: "row list"
    by (induction xs) simp_all
  then show ?thesis by (simp add: matching_def)
qed

lemma count_paired:
  "count_list (map fst (if ms = [] then [(a, d)] else map (\<lambda>c. (a, h c)) ms)) k
     = (if a = k then max 1 (length ms) else 0)"
proof (cases "ms = []")
  case True
  then show ?thesis by simp
next
  case False
  then have "1 \<le> length ms" by (cases ms) simp_all
  then have "max 1 (length ms) = length ms" by (rule max_absorb2)
  moreover have "map fst (map (\<lambda>c. (a, h c)) ms) = replicate (length ms) a"
    by (simp add: map_replicate_const comp_def)
  ultimately show ?thesis using False by (simp add: count_list_replicate)
qed

lemma count_join_right:
  assumes "join_right l r = Inr f"
  shows "count_list (map fst (rows f)) k
           = count_list (map fst (rows r)) k * max 1 (count_list (map fst (rows l)) k)"
proof -
  have "count_list (map fst (rows f)) k
          = (\<Sum>x\<leftarrow>rows r. if fst x = k then max 1 (length (matching l k)) else 0)"
    unfolding join_right_rows [OF assms] count_keys_concat count_paired
    by (rule arg_cong [where f = sum_list], rule map_cong) auto
  then show ?thesis by (simp add: sum_if_key length_matching)
qed

lemma join_outer_rows:
  "join_outer l r = Inr f \<Longrightarrow>
   rows f = concat (map (\<lambda>x. if matching r (fst x) = []
                               then [(fst x, snd x @ missing_cells r)]
                               else map (\<lambda>rc. (fst x, snd x @ rc)) (matching r (fst x))) (rows l))
            @ map (\<lambda>x. (fst x, missing_cells l @ snd x))
                (filter (\<lambda>x. fst x \<notin> fst ` set (rows l)) (rows r))"
  by (auto simp: join_outer_def list_case_if split: if_splits)

lemma count_right_only:
  "count_list (map fst (map (\<lambda>x. (fst x, h x)) (filter (\<lambda>x. fst x \<notin> K) xs))) k
     = (if k \<in> K then 0 else count_list (map fst xs) k)"
  by (induction xs) auto

lemma count_join_outer:
  assumes "join_outer l r = Inr f"
  shows "count_list (map fst (rows f)) k
           = (if count_list (map fst (rows l)) k = 0 then count_list (map fst (rows r)) k
              else count_list (map fst (rows l)) k * max 1 (count_list (map fst (rows r)) k))"
proof -
  have left: "count_list (map fst (concat (map (\<lambda>x. if matching r (fst x) = []
                               then [(fst x, snd x @ missing_cells r)]
                               else map (\<lambda>rc. (fst x, snd x @ rc)) (matching r (fst x))) (rows l)))) k
          = count_list (map fst (rows l)) k * max 1 (count_list (map fst (rows r)) k)"
  proof -
    have "count_list (map fst (concat (map (\<lambda>x. if matching r (fst x) = []
                               then [(fst x, snd x @ missing_cells r)]
                               else map (\<lambda>rc. (fst x, snd x @ rc)) (matching r (fst x))) (rows l)))) k
          = (\<Sum>x\<leftarrow>rows l. if fst x = k then max 1 (length (matching r k)) else 0)"
      unfolding count_keys_concat count_paired
      by (rule arg_cong [where f = sum_list], rule map_cong) auto
    then show ?thesis by (simp add: sum_if_key length_matching)
  qed
  have K: "k \<in> fst ` set (rows l) \<longleftrightarrow> count_list (map fst (rows l)) k \<noteq> 0"
    by (simp add: count_list_0_iff)
  show ?thesis
    unfolding join_outer_rows [OF assms] map_append count_list_append left count_right_only K
    by simp
qed

lemma fillna_keys: "map fst (rows (fillna v f)) = map fst (rows f)"
  by (simp add: fillna_def comp_def)

lemma count_create_matrixes_chromosome:
  assumes "create_matrixes_chromosome chromosome chip input islands = Inr dfm"
  shows "count_list (map fst (rows dfm)) k =
           (let t = count_list (map fst (rows (get_chromosome_df chromosome chip))) k;
                i = count_list (map fst (rows islands)) k;
                n = count_list (map fst (rows (get_chromosome_df chromosome input))) k
            in if t = 0 then n else t * max 1 i * max 1 n)"
proof -
  from assms obtain j m where j: "join_right islands (get_chromosome_df chromosome chip) = Inr j"
    and m: "join_outer j (get_chromosome_df chromosome input) = Inr m"
    and dfm: "dfm = fillna 0 m"
    by (auto simp: create_matrixes_chromosome_def Let_def split: sum.splits)
  show ?thesis
    unfolding dfm fillna_keys count_join_outer [OF m] count_join_right [OF j]
    by (simp add: Let_def)
qed

section \<open>Duplicate island entries\<close>

lemmas more_example_defs = treatment_chr1_bin200_def

lemma distinct_range_up: "0 < step \<Longrightarrow> distinct (range_up i stop step)"
proof -
  assume pos: "0 < step"
  have "inj_on (\<lambda>k. i + int k * step) A" for A
    using pos by (simp add: inj_on_def)
  then have "distinct (map (\<lambda>k. i + int k * step) [0..<length (range_up i stop step)])"
    by (simp add: distinct_map)
  then show ?thesis using range_up_progression [OF pos, of i stop] by simp
qed

lemma count_list_distinct: "distinct xs \<Longrightarrow> count_list xs x = (if x \<in> set xs then 1 else 0)"
  by (induction xs) auto

lemma count_list_map_pair:
  "count_list (map (\<lambda>b. (c', b)) xs) (c, b) = (if c' = c then count_list xs b else 0)"
  by (induction xs) auto

lemma sum_indicator:
  "(\<Sum>x\<leftarrow>xs. if Q x then 1 else 0) = length (filter Q xs)"
  by (induction xs) simp_all

lemma count_islands:
  assumes "0 < window_size a" and "enriched_bins df a = Inr islands"
  shows "count_list (map fst (rows islands)) (c, b)
           = length (filter (\<lambda>r. FDR r < false_discovery_rate_cutoff a \<and> Chromosome r = c
                                \<and> b \<in> set (range_up (Start r) (End r + 2) (window_size a))) df)"
proof -
  let ?P = "\<lambda>r. FDR r < false_discovery_rate_cutoff a"
  let ?Q = "\<lambda>r. Chromosome r = c \<and> b \<in> set (range_up (Start r) (End r + 2) (window_size a))"
  have one: "count_list (map fst (map (\<lambda>b. ((Chromosome r, b), [Some (1::int)]))
                 (range_up (Start r) (End r + 2) (window_size a)))) (c, b)
               = (if ?Q r then 1 else 0)" for r
    by (simp add: comp_def count_list_map_pair count_list_distinct distinct_range_up [OF assms(1)])
  have "count_list (map fst (rows islands)) (c, b) = (\<Sum>r\<leftarrow>filter ?P df. if ?Q r then 1 else 0)"
    unfolding enriched_bins_Inr_rows [OF assms] count_keys_concat one ..
  also have "\<dots> = length (filter ?Q (filter ?P df))" by (rule sum_indicator)
  also have "\<dots> = length (filter (\<lambda>r. ?P r \<and> ?Q r) df)"
    by (simp add: conj_commute)
  finally show ?thesis .
qed

lemma at_most_one_row:
  fixes t i n :: nat
  shows "(if t = 0 then n else t * max 1 i * max 1 n) \<le> 1
           \<longleftrightarrow> (t = 0 \<and> n \<le> 1) \<or> (t = 1 \<and> i \<le> 1 \<and> n \<le> 1)"
proof (cases "t = 0")
  case True
  then show ?thesis by simp
next
  case False
  have pos: "1 \<le> t * max 1 i * max 1 n" using False by simp
  have "t * max 1 i * max 1 n \<le> 1 \<longleftrightarrow> t * max 1 i * max 1 n = 1"
    using pos by linarith
  also have "\<dots> \<longleftrightarrow> t = 1 \<and> max 1 i = 1 \<and> max 1 n = 1" by simp
  also have "\<dots> \<longleftrightarrow> t = 1 \<and> i \<le> 1 \<and> n \<le> 1" by (auto simp: max_def)
  finally show ?thesis using False by simp
qed

text \<open>
  Claim C6, as the code has it. Nothing collapses equal pairs: for a positive window
  size the index holds a pair once for every surviving region that produces it. In the
  merged matrix of a chromosome, a key that the treatment table holds \<open>t\<close> times, the
  index \<open>i\<close> times and the control table \<open>n\<close> times has \<open>n\<close> rows when \<open>t = 0\<close> and
  \<open>t * max 1 i * max 1 n\<close> rows otherwise. So the key has at most one row exactly when
  the treatment table does not hold it and the control table holds it at most once, or
  the treatment table holds it once and the index and the control table at most once
  each.
\<close>

theorem island_entries_not_collapsed:
  assumes "0 < window_size a"
    and "enriched_bins df a = Inr islands"
    and "create_matrixes_chromosome chromosome chip input islands = Inr dfm"
  shows "count_list (map fst (rows islands)) (c, b)
           = length (filter (\<lambda>r. FDR r < false_discovery_rate_cutoff a \<and> Chromosome r = c
                                \<and> b \<in> set (range_up (Start r) (End r + 2) (window_size a))) df)
       \<and> count_list (map fst (rows dfm)) k =
           (let t = count_list (map fst (rows (get_chromosome_df chromosome chip))) k;
                i = count_list (map fst (rows islands)) k;
                n = count_list (map fst (rows (get_chromosome_df chromosome input))) k
            in if t = 0 then n else t * max 1 i * max 1 n)
       \<and> (count_list (map fst (rows dfm)) k \<le> 1 \<longleftrightarrow>
            (count_list (map fst (rows (get_chromosome_df chromosome chip))) k = 0
               \<and> count_list (map fst (rows (get_chromosome_df chromosome input))) k \<le> 1)
            \<or> (count_list (map fst (rows (get_chromosome_df chromosome chip))) k = 1
               \<and> count_list (map fst (rows islands)) k \<le> 1
               \<and> count_list (map fst (rows (get_chromosome_df chromosome input))) k \<le> 1))"
proof (intro conjI)
  show "count_list (map fst (rows islands)) (c, b)
           = length (filter (\<lambda>r. FDR r < false_discovery_rate_cutoff a \<and> Chromosome r = c
                                \<and> b \<in> set (range_up (Start r) (End r + 2) (window_size a))) df)"
    by (rule count_islands [OF assms(1,2)])
next
  show "count_list (map fst (rows dfm)) k =
           (let t = count_list (map fst (rows (get_chromosome_df chromosome chip))) k;
                i = count_list (map fst (rows islands)) k;
                n = count_list (map fst (rows (get_chromosome_df chromosome input))) k
            in if t = 0 then n else t * max 1 i * max 1 n)"
    by (rule count_create_matrixes_chromosome [OF assms(3)])
next
  show "count_list (map fst (rows dfm)) k \<le> 1 \<longleftrightarrow>
            (count_list (map fst (rows (get_chromosome_df chromosome chip))) k = 0
               \<and> count_list (map fst (rows (get_chromosome_df chromosome input))) k \<le> 1)
            \<or> (count_list (map fst (rows (get_chromosome_df chromosome chip))) k = 1
               \<and> count_list (map fst (rows islands)) k \<le> 1
               \<and> count_list (map fst (rows (get_chromosome_df chromosome input))) k \<le> 1)"
    unfolding count_create_matrixes_chromosome [OF assms(3)] Let_def
    by (rule at_most_one_row)
qed

text \<open>
  The index of claim C6 evaluated: the regions 100 to 250 and 200 to 350 of \<open>chr1\<close>
  both produce bin 200, the index holds the pair \<open>(chr1, 200)\<close> twice, and a treatment
  table with one row at that bin gives a merged matrix with two rows of that key.
\<close>

theorem island_entries_counterexample:
  "enriched_bins [region_chr1, region_chr1_overlap] example_args
     = Inr \<lparr>columns = [''Island''],
            rows = [((''chr1'', 100), [Some 1]), ((''chr1'', 200), [Some 1]),
                    ((''chr1'', 200), [Some 1]), ((''chr1'', 300), [Some 1])]\<rparr>
   \<and> create_matrixes_chromosome ''chr1''
       (put_dfs_in_chromosome_dict [treatment_chr1_bin200]) (put_dfs_in_chromosome_dict [])
       \<lparr>columns = [''Island''],
        rows = [((''chr1'', 100), [Some 1]), ((''chr1'', 200), [Some 1]),
                ((''chr1'', 200), [Some 1]), ((''chr1'', 300), [Some 1])]\<rparr>
     = Inr \<lparr>columns = [''Island'', ''t.bed''],
            rows = [((''chr1'', 200), [Some 1, Some 5]), ((''chr1'', 200), [Some 1, Some 5])]\<rparr>"
  by (simp add: example_defs more_example_defs eval_defs)

theorem island_entries_not_collapsed_witness:
  "(0 :: int) < window_size example_args
   \<and> enriched_bins [region_chr1, region_chr1_overlap] example_args
     = Inr \<lparr>columns = [''Island''],
            rows = [((''chr1'', 100), [Some 1]), ((''chr1'', 200), [Some 1]),
                    ((''chr1'', 200), [Some 1]), ((''chr1'', 300), [Some 1])]\<rparr>
   \<and> create_matrixes_chromosome ''chr1''
       (put_dfs_in_chromosome_dict [treatment_chr1_bin200]) (put_dfs_in_chromosome_dict [])
       \<lparr>columns = [''Island''],
        rows = [((''chr1'', 100), [Some 1]), ((''chr1'', 200), [Some 1]),
                ((''chr1'', 200), [Some 1]), ((''chr1'', 300), [Some 1])]\<rparr>
     = Inr \<lparr>columns = [''Island'', ''t.bed''],
            rows = [((''chr1'', 200), [Some 1, Some 5]), ((''chr1'', 200), [Some 1, Some 5])]\<rparr>
   \<and> count_list (map fst (rows \<lparr>columns = [''Island''],
            rows = [((''chr1'', 100), [Some 1]), ((''chr1'', 200), [Some 1]),
                    ((''chr1'', 200), [Some 1]), ((''chr1'', 300), [Some 1])]\<rparr>)) (''chr1'', 200) = 2
   \<and> count_list (map fst (rows \<lparr>columns = [''Island'', ''t.bed''],
            rows = [((''chr1'', 200), [Some 1, Some 5]), ((''chr1'', 200), [Some 1, Some 5])]\<rparr>))
         (''chr1'', 200) = 2"
proof -
  have h0: "(0 :: int) < window_size example_args" by (simp add: example_defs)
  have h1: "enriched_bins [region_chr1, region_chr1_overlap] example_args
     = Inr \<lparr>columns = [''Island''],
            rows = [((''chr1'', 100), [Some 1]), ((''chr1'', 200), [Some 1]),
                    ((''chr1'', 200), [Some 1]), ((''chr1'', 300), [Some 1])]\<rparr>"
    by (simp add: example_defs eval_defs)
  have h2: "create_matrixes_chromosome ''chr1''
       (put_dfs_in_chromosome_dict [treatment_chr1_bin200]) (put_dfs_in_chromosome_dict [])
       \<lparr>columns = [''Island''],
        rows = [((''chr1'', 100), [Some 1]), ((''chr1'', 200), [Some 1]),
                ((''chr1'', 200), [Some 1]), ((''chr1'', 300), [Some 1])]\<rparr>
     = Inr \<lparr>columns = [''Island'', ''t.bed''],
            rows = [((''chr1'', 200), [Some 1, Some 5]), ((''chr1'', 200), [Some 1, Some 5])]\<rparr>"
    by (simp add: example_defs more_example_defs eval_defs)
  have "count_list (map fst (rows \<lparr>columns = [''Island''],
            rows = [((''chr1'', 100), [Some 1]), ((''chr1'', 200), [Some 1]),
                    ((''chr1'', 200), [Some 1]), ((''chr1'', 300), [Some (1 :: int)])]\<rparr>)) (''chr1'', 200 :: int) = 2"
    by simp
  moreover have "count_list (map fst (rows \<lparr>columns = [''Island'', ''t.bed''],
            rows = [((''chr1'', 200), [Some 1, Some 5]), ((''chr1'', 200), [Some 1, Some (5 :: int)])]\<rparr>))
         (''chr1'', 200 :: int) = 2"
    by simp
  ultimately show ?thesis
    using h0 h1 h2
      island_entries_not_collapsed [OF h0 h1 h2, of "''chr1''" 200 "(''chr1'', 200)", THEN conjunct1]
    by blast
qed

section \<open>The rows of the merged matrix\<close>

lemma create_matrixes_chromosome_keys:
  assumes "create_matrixes_chromosome chromosome chip input islands = Inr dfm"
  shows "set (map fst (rows dfm))
           = set (map fst (rows (get_chromosome_df chromosome chip)))
             \<union> set (map fst (rows (get_chromosome_df chromosome input)))"
proof (rule set_eqI)
  fix k
  let ?t = "count_list (map fst (rows (get_chromosome_df chromosome chip))) k"
  let ?n = "count_list (map fst (rows (get_chromosome_df chromosome input))) k"
  let ?i = "count_list (map fst (rows islands)) k"
  have mem: "x \<in> set xs \<longleftrightarrow> count_list xs x \<noteq> 0" for x :: key and xs
    by (simp only: count_list_0_iff not_not)
  have "k \<in> set (map fst (rows dfm)) \<longleftrightarrow> count_list (map fst (rows dfm)) k \<noteq> 0"
    by (rule mem)
  also have "\<dots> \<longleftrightarrow> (if ?t = 0 then ?n else ?t * max 1 ?i * max 1 ?n) \<noteq> 0"
    by (simp only: count_create_matrixes_chromosome [OF assms] Let_def)
  also have "\<dots> \<longleftrightarrow> ?t \<noteq> 0 \<or> ?n \<noteq> 0" by (simp add: max_def)
  also have "\<dots> \<longleftrightarrow> k \<in> set (map fst (rows (get_chromosome_df chromosome chip)))
             \<union> set (map fst (rows (get_chromosome_df chromosome input)))"
    by (simp only: Un_iff mem)
  finally show "k \<in> set (map fst (rows dfm)) \<longleftrightarrow> k \<in> set (map fst (rows (get_chromosome_df chromosome chip)))
             \<union> set (map fst (rows (get_chromosome_df chromosome input)))" .
qed

lemma put_dfs_loop_lookup:
  "map_of (put_dfs_loop d dfs) c = Some df \<Longrightarrow> df \<in> set dfs \<or> map_of d c = Some df"
proof (induction dfs arbitrary: d)
  case Nil
  then show ?case by simp
next
  case (Cons x dfs)
  show ?case
  proof (cases "rows x")
    case Nil
    then have "map_of (put_dfs_loop d dfs) c = Some df" using Cons.prems by simp
    then show ?thesis using Cons.IH by fastforce
  next
    case (Cons r rs)
    then have "map_of (put_dfs_loop (AList.update (fst (fst r)) x d) dfs) c = Some df"
      using Cons.prems by simp
    then have "df \<in> set dfs \<or> map_of (AList.update (fst (fst r)) x d) c = Some df"
      by (rule Cons.IH)
    then show ?thesis
      by (auto simp: update_conv' split: if_splits)
  qed
qed

lemma get_chromosome_df_rows:
  assumes "r \<in> set (rows (get_chromosome_df c (put_dfs_in_chromosome_dict dfs)))"
  shows "\<exists>t \<in> set dfs. r \<in> set (rows t)"
proof (cases "map_of (put_dfs_in_chromosome_dict dfs) c")
  case None
  then show ?thesis using assms by (simp add: get_chromosome_df_def)
next
  case (Some df)
  then have "df \<in> set dfs"
    using put_dfs_loop_lookup [of "[]" dfs c df] by (simp add: put_dfs_in_chromosome_dict_def)
  moreover have "r \<in> set (rows df)" using assms Some by (simp add: get_chromosome_df_def)
  ultimately show ?thesis ..
qed

lemma collect_mem: "collect xs = Inr vs \<Longrightarrow> v \<in> set vs \<Longrightarrow> Inr v \<in> set xs"
proof (induction xs arbitrary: vs)
  case Nil
  then show ?case by simp
next
  case (Cons x xs)
  then show ?case by (auto split: sum.splits)
qed

lemma collect_Inr: "collect xs = Inr vs \<Longrightarrow> xs = map Inr vs"
proof (induction xs arbitrary: vs)
  case Nil
  then show ?case by simp
next
  case (Cons x xs)
  then show ?case by (auto split: sum.splits)
qed

lemma merged_row_key:
  assumes "create_matrixes natsorted chip input df a = Inr dfms"
    and "dfm \<in> set dfms"
    and "row \<in> set (rows dfm)"
  shows "\<exists>t \<in> set chip \<union> set input. \<exists>r \<in> set (rows t). fst r = fst row"
proof -
  from assms(1) obtain islands where
    c: "collect (map (\<lambda>chromosome. create_matrixes_chromosome chromosome
          (put_dfs_in_chromosome_dict chip) (put_dfs_in_chromosome_dict input) islands)
          (natsorted (remdups (map fst (put_dfs_in_chromosome_dict chip)
                               @ map fst (put_dfs_in_chromosome_dict input))))) = Inr dfms"
    by (auto simp: create_matrixes_def Let_def split: sum.splits)
  from collect_mem [OF c assms(2)] obtain chromosome where
    m: "create_matrixes_chromosome chromosome
          (put_dfs_in_chromosome_dict chip) (put_dfs_in_chromosome_dict input) islands = Inr dfm"
    by auto
  have "fst row \<in> set (map fst (rows dfm))" using assms(3) by simp
  then have "fst row \<in> set (map fst (rows (get_chromosome_df chromosome (put_dfs_in_chromosome_dict chip))))
       \<or> fst row \<in> set (map fst (rows (get_chromosome_df chromosome (put_dfs_in_chromosome_dict input))))"
    unfolding create_matrixes_chromosome_keys [OF m] by simp
  then show ?thesis
  proof
    assume "fst row \<in> set (map fst (rows (get_chromosome_df chromosome (put_dfs_in_chromosome_dict chip))))"
    then obtain r where r: "r \<in> set (rows (get_chromosome_df chromosome (put_dfs_in_chromosome_dict chip)))"
      and k: "fst r = fst row" by auto
    from get_chromosome_df_rows [OF r] obtain t where "t \<in> set chip" "r \<in> set (rows t)" ..
    then show ?thesis using k by blast
  next
    assume "fst row \<in> set (map fst (rows (get_chromosome_df chromosome (put_dfs_in_chromosome_dict input))))"
    then obtain r where r: "r \<in> set (rows (get_chromosome_df chromosome (put_dfs_in_chromosome_dict input)))"
      and k: "fst r = fst row" by auto
    from get_chromosome_df_rows [OF r] obtain t where "t \<in> set input" "r \<in> set (rows t)" ..
    then show ?thesis using k by blast
  qed
qed

text \<open>
  Claim C2, as the code has it. When \<open>natsorted\<close> returns the chromosomes of the two
  partitions, each once, the orchestrator returns exactly one table per chromosome of
  the treatment and control partitions, in the sorted order, each being the matrix
  builder's table of that chromosome; and every row of these tables has the key of a
  row of a treatment or control table. The island index adds no table and no row: a
  chromosome on which no treatment or control table has a row has no row in the merged
  matrix, also when the index has bins on it.
\<close>

theorem merged_rows_come_from_tables:
  assumes "create_matrixes natsorted chip input df a = Inr dfms"
    and "distinct (natsorted (remdups (map fst (put_dfs_in_chromosome_dict chip)
                                       @ map fst (put_dfs_in_chromosome_dict input))))"
    and "set (natsorted (remdups (map fst (put_dfs_in_chromosome_dict chip)
                                  @ map fst (put_dfs_in_chromosome_dict input))))
         = set (remdups (map fst (put_dfs_in_chromosome_dict chip)
                         @ map fst (put_dfs_in_chromosome_dict input)))"
  shows "(\<exists>islands. enriched_bins df a = Inr islands
            \<and> map Inr dfms =
                map (\<lambda>chromosome. create_matrixes_chromosome chromosome
                       (put_dfs_in_chromosome_dict chip) (put_dfs_in_chromosome_dict input) islands)
                  (natsorted (remdups (map fst (put_dfs_in_chromosome_dict chip)
                                       @ map fst (put_dfs_in_chromosome_dict input)))))
       \<and> set (natsorted (remdups (map fst (put_dfs_in_chromosome_dict chip)
                                   @ map fst (put_dfs_in_chromosome_dict input))))
           = fst ` set (put_dfs_in_chromosome_dict chip)
             \<union> fst ` set (put_dfs_in_chromosome_dict input)
       \<and> length dfms = card (fst ` set (put_dfs_in_chromosome_dict chip)
                              \<union> fst ` set (put_dfs_in_chromosome_dict input))
       \<and> (\<forall>dfm \<in> set dfms. \<forall>row \<in> set (rows dfm).
             \<exists>t \<in> set chip \<union> set input. \<exists>r \<in> set (rows t). fst r = fst row)"
proof (intro conjI ballI)
  let ?cs = "natsorted (remdups (map fst (put_dfs_in_chromosome_dict chip)
                                 @ map fst (put_dfs_in_chromosome_dict input)))"
  from assms(1) obtain islands where isl: "enriched_bins df a = Inr islands" and
    c: "collect (map (\<lambda>chromosome. create_matrixes_chromosome chromosome
          (put_dfs_in_chromosome_dict chip) (put_dfs_in_chromosome_dict input) islands) ?cs)
        = Inr dfms"
    by (auto simp: create_matrixes_def Let_def split: sum.splits)
  have m: "map Inr dfms = map (\<lambda>chromosome. create_matrixes_chromosome chromosome
          (put_dfs_in_chromosome_dict chip) (put_dfs_in_chromosome_dict input) islands) ?cs"
    using collect_Inr [OF c] by simp
  show "\<exists>islands. enriched_bins df a = Inr islands
            \<and> map Inr dfms =
                map (\<lambda>chromosome. create_matrixes_chromosome chromosome
                       (put_dfs_in_chromosome_dict chip) (put_dfs_in_chromosome_dict input) islands)
                  ?cs"
    using isl m by blast
  show s: "set ?cs = fst ` set (put_dfs_in_chromosome_dict chip)
             \<union> fst ` set (put_dfs_in_chromosome_dict input)"
    unfolding assms(3) by simp
  have "length dfms = length ?cs"
    using arg_cong [OF m, of length] by simp
  also have "\<dots> = card (set ?cs)"
    using distinct_card [OF assms(2)] by simp
  finally show "length dfms = card (fst ` set (put_dfs_in_chromosome_dict chip)
                              \<union> fst ` set (put_dfs_in_chromosome_dict input))"
    unfolding s .
next
  fix dfm row
  assume "dfm \<in> set dfms" and "row \<in> set (rows dfm)"
  then show "\<exists>t \<in> set chip \<union> set input. \<exists>r \<in> set (rows t). fst r = fst row"
    by (rule merged_row_key [OF assms(1)])
qed

text \<open>
  The orchestrator of claim C2 evaluated (on the one chromosome of the partitions the
  natural sort is the identity): \<open>chr2\<close> is in neither partition and has the island bins
  100 and 200, and the merged matrix has the rows of \<open>chr1\<close> only.
\<close>

theorem absent_chromosome_counterexample:
  "map fst (put_dfs_in_chromosome_dict [treatment_chr1]) = [''chr1'']
   \<and> map fst (put_dfs_in_chromosome_dict [control_chr1]) = [''chr1'']
   \<and> enriched_bins [region_chr1, region_chr2] example_args
     = Inr \<lparr>columns = [''Island''],
            rows = [((''chr1'', 100), [Some 1]), ((''chr1'', 200), [Some 1]),
                    ((''chr2'', 100), [Some 1]), ((''chr2'', 200), [Some 1])]\<rparr>
   \<and> create_matrixes (\<lambda>chromosomes. chromosomes) [treatment_chr1] [control_chr1]
       [region_chr1, region_chr2] example_args
     = Inr [\<lparr>columns = [''Island'', ''t.bed'', ''c.bed''],
             rows = [((''chr1'', 100), [Some 1, Some 5, Some 1]),
                     ((''chr1'', 300), [Some 0, Some 3, Some 0])]\<rparr>]"
  by (simp add: example_defs eval_defs)

theorem merged_rows_come_from_tables_witness:
  "create_matrixes (\<lambda>chromosomes. chromosomes) [treatment_chr1] [control_chr1]
       [region_chr1, region_chr2] example_args
     = Inr [\<lparr>columns = [''Island'', ''t.bed'', ''c.bed''],
             rows = [((''chr1'', 100), [Some 1, Some 5, Some 1]),
                     ((''chr1'', 300), [Some 0, Some 3, Some 0])]\<rparr>]
   \<and> remdups (map fst (put_dfs_in_chromosome_dict [treatment_chr1])
              @ map fst (put_dfs_in_chromosome_dict [control_chr1])) = [''chr1'']
   \<and> length [\<lparr>columns = [''Island'', ''t.bed'', ''c.bed''],
              rows = [((''chr1'', 100), [Some 1, Some 5, Some 1]),
                      ((''chr1'', 300), [Some (0 :: int), Some 3, Some 0])]\<rparr>]
     = card (fst ` set (put_dfs_in_chromosome_dict [treatment_chr1])
             \<union> fst ` set (put_dfs_in_chromosome_dict [control_chr1]))"
proof -
  have h1: "create_matrixes (\<lambda>chromosomes. chromosomes) [treatment_chr1] [control_chr1]
       [region_chr1, region_chr2] example_args
     = Inr [\<lparr>columns = [''Island'', ''t.bed'', ''c.bed''],
             rows = [((''chr1'', 100), [Some 1, Some 5, Some 1]),
                     ((''chr1'', 300), [Some 0, Some 3, Some 0])]\<rparr>]"
    by (simp add: example_defs eval_defs)
  have cs: "remdups (map fst (put_dfs_in_chromosome_dict [treatment_chr1])
              @ map fst (put_dfs_in_chromosome_dict [control_chr1])) = [''chr1'']"
    by (simp add: example_defs eval_defs)
  have h2: "distinct ((\<lambda>chromosomes. chromosomes)
              (remdups (map fst (put_dfs_in_chromosome_dict [treatment_chr1])
                        @ map fst (put_dfs_in_chromosome_dict [control_chr1]))))"
    by simp
  have h3: "set ((\<lambda>chromosomes. chromosomes)
              (remdups (map fst (put_dfs_in_chromosome_dict [treatment_chr1])
                        @ map fst (put_dfs_in_chromosome_dict [control_chr1]))))
            = set (remdups (map fst (put_dfs_in_chromosome_dict [treatment_chr1])
                        @ map fst (put_dfs_in_chromosome_dict [control_chr1])))"
    by simp
  show ?thesis
    using h1 cs merged_rows_come_from_tables [OF h1 h2 h3] by (intro conjI) blast+
qed

section \<open>The stored matrix\<close>

lemmas export_defs =
  print_matrixes_def to_csv_rows_def pd_concat_def cell_at_def drop_column_def
  get_column_def get_columns_def sum_1_def sum_skipna_def wrap64_def bedgraph_def basename_def
  base_segments_def bedgraph_base_def dropna_def individual_bedgraphs_file_def
  individual_bedgraphs_def is_set_def optional_def write_matrix_files_def

lemma join_outer_columns:
  "join_outer l r = Inr f \<Longrightarrow> columns f = columns l @ columns r"
  by (auto simp: join_outer_def split: if_splits)

lemma create_matrixes_chromosome_columns:
  assumes "create_matrixes_chromosome chromosome chip input islands = Inr dfm"
  shows "columns dfm = columns islands @ columns (get_chromosome_df chromosome chip)
                       @ columns (get_chromosome_df chromosome input)"
proof -
  from assms obtain j m where j: "join_right islands (get_chromosome_df chromosome chip) = Inr j"
    and m: "join_outer j (get_chromosome_df chromosome input) = Inr m"
    and dfm: "dfm = fillna 0 m"
    by (auto simp: create_matrixes_chromosome_def Let_def split: sum.splits)
  show ?thesis
    by (simp add: dfm fillna_def join_outer_columns [OF m] join_right_columns [OF j])
qed

lemma print_matrixes_header:
  "print_matrixes (f # fs) = Inr ls \<Longrightarrow>
   \<exists>rest. ls = Header (''Chromosome'' # ''Bin'' # columns f) # rest"
  by (auto simp: print_matrixes_def split: sum.splits)

lemma pd_concat_nonempty: "pd_concat fs = Inr m \<Longrightarrow> fs \<noteq> []"
  by (auto simp: pd_concat_def)

lemma drop_column_gone: "drop_column name m0 = Inr m \<Longrightarrow> name \<notin> set (columns m)"
  by (auto simp: drop_column_def split: if_splits)

lemma collect_map_hd:
  "collect (map F cs) = Inr (v # vs) \<Longrightarrow> cs \<noteq> [] \<and> F (hd cs) = Inr v"
  by (cases cs) (auto split: sum.splits)

lemma collect_map_all: "collect (map F cs) = Inr vs \<Longrightarrow> v \<in> set vs \<Longrightarrow> \<exists>c. F c = Inr v"
  using collect_mem [of "map F cs" vs v] by auto

text \<open>
  Claim C5, as the code has it. \<open>write_matrix_files\<close> hands \<open>print_matrixes\<close> the
  per-chromosome tables as \<open>create_matrixes\<close> returns them, each with its \<open>Island\<close>
  column: when a matrix is stored, its header is \<open>Chromosome\<close>, \<open>Bin\<close>, \<open>Island\<close> and
  then the treatment and control columns of the tables of the first chromosome in the
  sorted order. The concatenated matrix without the column \<open>Island\<close> is what the two
  bedgraph exporters are run on.
\<close>

theorem stored_matrix_keeps_island:
  assumes "write_matrix_files natsorted chip_merged input_merged df a = Inr out"
  shows "\<exists>matrixes matrix0 matrix.
           create_matrixes natsorted chip_merged input_merged df a = Inr matrixes
         \<and> optional (is_set (store_matrix a)) (print_matrixes matrixes) = Inr (stored_matrix out)
         \<and> (\<forall>f \<in> set matrixes. ''Island'' \<in> set (columns f))
         \<and> (is_set (store_matrix a) \<longrightarrow>
              (\<exists>rest. stored_matrix out =
                 Some (Header (''Chromosome'' # ''Bin'' # ''Island''
                   # columns (get_chromosome_df
                       (hd (natsorted (remdups (map fst (put_dfs_in_chromosome_dict chip_merged)
                              @ map fst (put_dfs_in_chromosome_dict input_merged)))))
                       (put_dfs_in_chromosome_dict chip_merged))
                   @ columns (get_chromosome_df
                       (hd (natsorted (remdups (map fst (put_dfs_in_chromosome_dict chip_merged)
                              @ map fst (put_dfs_in_chromosome_dict input_merged)))))
                       (put_dfs_in_chromosome_dict input_merged)))
                 # rest)))
         \<and> pd_concat matrixes = Inr matrix0
         \<and> drop_column ''Island'' matrix0 = Inr matrix
         \<and> ''Island'' \<notin> set (columns matrix)
         \<and> optional (is_set (individual_bedgraph a)) (individual_bedgraphs matrix a)
             = Inr (individual_files out)
         \<and> optional (is_set (bedgraph_folder a)) (bedgraph matrix a) = Inr (bedgraph_files out)"
proof -
  let ?cs = "natsorted (remdups (map fst (put_dfs_in_chromosome_dict chip_merged)
                                 @ map fst (put_dfs_in_chromosome_dict input_merged)))"
  from assms obtain matrixes matrix0 matrix where
    cm: "create_matrixes natsorted chip_merged input_merged df a = Inr matrixes"
    and st: "optional (is_set (store_matrix a)) (print_matrixes matrixes) = Inr (stored_matrix out)"
    and pc: "pd_concat matrixes = Inr matrix0"
    and dc: "drop_column ''Island'' matrix0 = Inr matrix"
    and ib: "optional (is_set (individual_bedgraph a)) (individual_bedgraphs matrix a)
               = Inr (individual_files out)"
    and bg: "optional (is_set (bedgraph_folder a)) (bedgraph matrix a) = Inr (bedgraph_files out)"
    by (auto simp: write_matrix_files_def split: sum.splits)
  from cm obtain islands where isl: "enriched_bins df a = Inr islands" and
    c: "collect (map (\<lambda>chromosome. create_matrixes_chromosome chromosome
          (put_dfs_in_chromosome_dict chip_merged) (put_dfs_in_chromosome_dict input_merged) islands)
          ?cs) = Inr matrixes"
    by (auto simp: create_matrixes_def Let_def split: sum.splits)
  have island: "''Island'' \<in> set (columns f)" if "f \<in> set matrixes" for f
  proof -
    from collect_map_all [OF c that] obtain chromosome where
      "create_matrixes_chromosome chromosome (put_dfs_in_chromosome_dict chip_merged)
          (put_dfs_in_chromosome_dict input_merged) islands = Inr f" ..
    then show ?thesis
      by (simp add: create_matrixes_chromosome_columns enriched_bins_shape(1) [OF isl])
  qed
  have header: "\<exists>rest. stored_matrix out =
                 Some (Header (''Chromosome'' # ''Bin'' # ''Island''
                   # columns (get_chromosome_df (hd ?cs) (put_dfs_in_chromosome_dict chip_merged))
                   @ columns (get_chromosome_df (hd ?cs) (put_dfs_in_chromosome_dict input_merged)))
                 # rest)"
    if set: "is_set (store_matrix a)"
  proof -
    from pd_concat_nonempty [OF pc] obtain f fs where fs: "matrixes = f # fs"
      by (cases matrixes) auto
    from st set obtain ls where ls: "print_matrixes (f # fs) = Inr ls"
      and s: "stored_matrix out = Some ls"
      by (auto simp: optional_def fs split: sum.splits)
    have m: "create_matrixes_chromosome (hd ?cs) (put_dfs_in_chromosome_dict chip_merged)
          (put_dfs_in_chromosome_dict input_merged) islands = Inr f"
      using collect_map_hd [OF c [unfolded fs]] by simp
    have cols: "columns f = ''Island''
                # columns (get_chromosome_df (hd ?cs) (put_dfs_in_chromosome_dict chip_merged))
                @ columns (get_chromosome_df (hd ?cs) (put_dfs_in_chromosome_dict input_merged))"
      by (simp add: create_matrixes_chromosome_columns [OF m] enriched_bins_shape(1) [OF isl])
    from print_matrixes_header [OF ls] obtain rest where
      "ls = Header (''Chromosome'' # ''Bin'' # columns f) # rest" ..
    then show ?thesis by (simp add: s cols)
  qed
  show ?thesis
    using cm st island header pc dc drop_column_gone [OF dc] ib bg by blast
qed

text \<open>
  The run of claim C5 evaluated: the stored matrix has the column \<open>Island\<close>.
\<close>

theorem stored_matrix_counterexample:
  "write_matrix_files (\<lambda>chromosomes. chromosomes) [treatment_chr1] [control_chr1]
       [region_chr1] example_args
     = Inr \<lparr>stored_matrix =
              Some [Header [''Chromosome'', ''Bin'', ''Island'', ''t.bed'', ''c.bed''],
                    Data (''chr1'', 100) [1, 5, 1], Data (''chr1'', 300) [0, 3, 0]],
            individual_files =
              Some [(''t.bedgraph'', [((''chr1'', 100), Some 5), ((''chr1'', 300), Some 3)]),
                    (''c.bedgraph'', [((''chr1'', 100), Some 1)])],
            bedgraph_files =
              Some ([((''chr1'', 100), 5), ((''chr1'', 300), 3)], [((''chr1'', 100), 1)])\<rparr>"
  by (simp add: example_defs eval_defs export_defs)

theorem stored_matrix_keeps_island_witness:
  "write_matrix_files (\<lambda>chromosomes. chromosomes) [treatment_chr1] [control_chr1]
       [region_chr1] example_args
     = Inr \<lparr>stored_matrix =
              Some [Header [''Chromosome'', ''Bin'', ''Island'', ''t.bed'', ''c.bed''],
                    Data (''chr1'', 100) [1, 5, 1], Data (''chr1'', 300) [0, 3, 0]],
            individual_files =
              Some [(''t.bedgraph'', [((''chr1'', 100), Some 5), ((''chr1'', 300), Some 3)]),
                    (''c.bedgraph'', [((''chr1'', 100), Some 1)])],
            bedgraph_files =
              Some ([((''chr1'', 100), 5), ((''chr1'', 300), 3)], [((''chr1'', 100), 1)])\<rparr>
   \<and> is_set (store_matrix example_args)
   \<and> (\<exists>matrixes matrix0 matrix.
         create_matrixes (\<lambda>chromosomes. chromosomes) [treatment_chr1] [control_chr1]
           [region_chr1] example_args = Inr matrixes
       \<and> pd_concat matrixes = Inr matrix0
       \<and> drop_column ''Island'' matrix0 = Inr matrix
       \<and> ''Island'' \<notin> set (columns matrix))"
proof -
  have h1: "write_matrix_files (\<lambda>chromosomes. chromosomes) [treatment_chr1] [control_chr1]
       [region_chr1] example_args
     = Inr \<lparr>stored_matrix =
              Some [Header [''Chromosome'', ''Bin'', ''Island'', ''t.bed'', ''c.bed''],
                    Data (''chr1'', 100) [1, 5, 1], Data (''chr1'', 300) [0, 3, 0]],
            individual_files =
              Some [(''t.bedgraph'', [((''chr1'', 100), Some 5), ((''chr1'', 300), Some 3)]),
                    (''c.bedgraph'', [((''chr1'', 100), Some 1)])],
            bedgraph_files =
              Some ([((''chr1'', 100), 5), ((''chr1'', 300), 3)], [((''chr1'', 100), 1)])\<rparr>"
    by (simp add: example_defs eval_defs export_defs)
  have h2: "is_set (store_matrix example_args)"
    by (simp add: example_defs is_set_def)
  show ?thesis
    using h1 h2 stored_matrix_keeps_island [OF h1] by blast
qed

section \<open>The aggregate bedgraph\<close>

lemmas matrix_example_defs =
  matrix_chr1_def matrix_chr2_def matrix_with_missing_def matrix_large_def example_args_two_def












section \<open>The per-file bedgraphs\<close>

text \<open>
  Claim C4, as the code has it. For a file name that is a column of the matrix, the
  per-file bedgraph holds exactly the rows whose cell in that column is present and
  not 0: no row with value 0, and no row (so no \<open>NA\<close>) where the matrix is missing in
  that column, since \<open>dropna\<close> removes those rows.
\<close>

theorem individual_bedgraph_rows:
  assumes "name \<in> set (columns matrix)"
  shows "\<exists>out. individual_bedgraphs_file matrix name = Inr (bedgraph_base name @ ''.bedgraph'', out)
           \<and> (\<forall>k c. (k, c) \<in> set out \<longleftrightarrow>
                 c \<noteq> None \<and> c \<noteq> Some 0
                 \<and> (\<exists>r \<in> set (rows matrix). fst r = k \<and> cell_at (columns matrix) name (snd r) = c))"
proof -
  let ?s = "map (\<lambda>r. (fst r, cell_at (columns matrix) name (snd r))) (rows matrix)"
  let ?out = "dropna (filter (\<lambda>p. snd p \<noteq> Some 0) ?s)"
  have "individual_bedgraphs_file matrix name = Inr (bedgraph_base name @ ''.bedgraph'', ?out)"
    using assms by (simp add: individual_bedgraphs_file_def get_column_def Let_def)
  moreover have "(k, c) \<in> set ?out \<longleftrightarrow>
                 c \<noteq> None \<and> c \<noteq> Some 0
                 \<and> (\<exists>r \<in> set (rows matrix). fst r = k \<and> cell_at (columns matrix) name (snd r) = c)"
    for k c
    by (auto simp: dropna_def)
  ultimately show ?thesis by blast
qed

text \<open>
  The per-file exporter of claim C4 evaluated: the concatenated matrix is missing in
  column \<open>t.bed\<close> at \<open>(chr2, 100)\<close>, and the bedgraph of \<open>t.bed\<close> has no row at that
  key.
\<close>

theorem individual_bedgraph_counterexample:
  "pd_concat [matrix_chr1, matrix_chr2]
     = Inr \<lparr>columns = [''Island'', ''t.bed'', ''c.bed''],
            rows = [((''chr1'', 100), [Some 1, Some 5, Some 0]),
                    ((''chr1'', 300), [Some 0, Some 0, Some 2]),
                    ((''chr2'', 100), [Some 0, None, Some 7])]\<rparr>
   \<and> drop_column ''Island''
       \<lparr>columns = [''Island'', ''t.bed'', ''c.bed''],
        rows = [((''chr1'', 100), [Some 1, Some 5, Some 0]),
                ((''chr1'', 300), [Some 0, Some 0, Some 2]),
                ((''chr2'', 100), [Some 0, None, Some 7])]\<rparr>
     = Inr matrix_with_missing
   \<and> individual_bedgraphs_file matrix_with_missing ''t.bed''
     = Inr (''t.bedgraph'', [((''chr1'', 100), Some 5)])"
  by (simp add: matrix_example_defs export_defs)

theorem individual_bedgraph_rows_witness:
  "''t.bed'' \<in> set (columns matrix_with_missing)
   \<and> individual_bedgraphs_file matrix_with_missing ''t.bed''
     = Inr (''t.bedgraph'', [((''chr1'', 100), Some 5)])
   \<and> (\<exists>out. individual_bedgraphs_file matrix_with_missing ''t.bed''
               = Inr (bedgraph_base ''t.bed'' @ ''.bedgraph'', out)
           \<and> (\<forall>k c. (k, c) \<in> set out \<longleftrightarrow>
                 c \<noteq> None \<and> c \<noteq> Some 0
                 \<and> (\<exists>r \<in> set (rows matrix_with_missing). fst r = k
                       \<and> cell_at (columns matrix_with_missing) ''t.bed'' (snd r) = c)))"
proof -
  have h1: "''t.bed'' \<in> set (columns matrix_with_missing)"
    by (simp add: matrix_example_defs)
  have h2: "individual_bedgraphs_file matrix_with_missing ''t.bed''
     = Inr (''t.bedgraph'', [((''chr1'', 100), Some 5)])"
    by (simp add: matrix_example_defs export_defs)
  show ?thesis
    using h1 h2 individual_bedgraph_rows [OF h1] by (intro conjI)
qed

section \<open>The base name of a per-file bedgraph\<close>

lemma split_on_plain: "d \<notin> set s \<Longrightarrow> split_on d s = [s]"
  by (induction s) auto

lemma split_on_segment: "d \<notin> set s \<Longrightarrow> split_on d (s @ d # rest) = s # split_on d rest"
  by (induction s) auto

lemma split_on_join_with:
  "segs \<noteq> [] \<Longrightarrow> \<forall>s \<in> set segs. d \<notin> set s \<Longrightarrow> split_on d (join_with [d] segs) = segs"
proof (induction "[d]" segs rule: join_with.induct)
  case 1
  then show ?case by simp
next
  case (2 s)
  then show ?case by (simp add: split_on_plain)
next
  case (3 s t ss)
  then show ?case by (simp add: split_on_segment)
qed

lemma set_join_with: "set (join_with sep segs) \<subseteq> set sep \<union> \<Union> (set ` set segs)"
  by (induction sep segs rule: join_with.induct) auto

lemma basename_plain: "CHR ''/'' \<notin> set f \<Longrightarrow> basename f = f"
proof -
  assume "CHR ''/'' \<notin> set f"
  then have tw: "takeWhile (\<lambda>c. c \<noteq> CHR ''/'') (rev f) = rev f"
    by (auto simp: takeWhile_eq_all_conv)
  show ?thesis unfolding basename_def tw by simp
qed

lemma basename_folder: "CHR ''/'' \<notin> set f \<Longrightarrow> basename (folder @ CHR ''/'' # f) = f"
proof -
  assume "CHR ''/'' \<notin> set f"
  then have tw: "takeWhile (\<lambda>c. c \<noteq> CHR ''/'') (rev f @ CHR ''/'' # rev folder) = rev f"
    by (auto simp: takeWhile_append2 takeWhile_tail)
  have r: "rev (folder @ CHR ''/'' # f) = rev f @ CHR ''/'' # rev folder" by simp
  show ?thesis unfolding basename_def r tw by simp
qed

text \<open>
  Claim C9, as the code has it. For a file name whose base name is made of the
  dot-separated segments \<open>segs\<close> (with or without a folder in front), the segments kept
  are all but the last two when there are more than two segments, whatever the last
  two are, and all but the last one otherwise. With at most three segments the base
  name is the first segment (the empty string for a name without a dot).
\<close>

theorem base_segments_kept:
  assumes "segs \<noteq> []"
    and "\<forall>s \<in> set segs. CHR ''.'' \<notin> set s \<and> CHR ''/'' \<notin> set s"
  shows "base_segments (folder @ CHR ''/'' # join_with ''.'' segs)
           = (if length segs > 2 then butlast (butlast segs) else butlast segs)
       \<and> base_segments (join_with ''.'' segs)
           = (if length segs > 2 then butlast (butlast segs) else butlast segs)
       \<and> (length segs \<le> 3 \<longrightarrow>
            bedgraph_base (join_with ''.'' segs) = (if length segs = 1 then [] else hd segs))"
proof -
  have noslash: "CHR ''/'' \<notin> set (join_with ''.'' segs)"
    using assms(2) set_join_with [of "''.''" segs] by auto
  have split: "split_on CHR ''.'' (join_with ''.'' segs) = segs"
    using assms by (intro split_on_join_with) auto
  have kept: "base_segments (join_with ''.'' segs)
           = (if length segs > 2 then butlast (butlast segs) else butlast segs)"
    by (simp add: base_segments_def basename_plain [OF noslash] split
                  butlast_conv_take numeral_2_eq_2 Let_def)
  have kept': "base_segments (folder @ CHR ''/'' # join_with ''.'' segs)
           = (if length segs > 2 then butlast (butlast segs) else butlast segs)"
    by (simp add: base_segments_def basename_folder [OF noslash] split
                  butlast_conv_take numeral_2_eq_2 Let_def)
  have short: "bedgraph_base (join_with ''.'' segs) = (if length segs = 1 then [] else hd segs)"
    if "length segs \<le> 3"
  proof (cases segs)
    case Nil
    then show ?thesis using assms(1) by simp
  next
    case c1: (Cons a r1)
    show ?thesis
    proof (cases r1)
      case Nil
      then show ?thesis unfolding bedgraph_base_def kept using c1 by simp
    next
      case c2: (Cons b r2)
      show ?thesis
      proof (cases r2)
        case Nil
        then show ?thesis unfolding bedgraph_base_def kept using c1 c2 by simp
      next
        case c3: (Cons c r3)
        then have "r3 = []" using that c1 c2 by simp
        then show ?thesis unfolding bedgraph_base_def kept using c1 c2 c3 by simp
      qed
    qed
  qed
  show ?thesis using kept kept' short by blast
qed

text \<open>
  The base name of claim C9 evaluated: \<open>sample.rep1.bed\<close> loses two segments though
  \<open>.bed\<close> is a simple extension, and the kept segments of \<open>a.b.bed.gz\<close> are joined
  without their dot.
\<close>

theorem bedgraph_base_counterexample:
  "bedgraph_base ''sample.rep1.bed'' = ''sample'' \<and> bedgraph_base ''a.b.bed.gz'' = ''ab''"
  by (simp add: bedgraph_base_def base_segments_def basename_def)

theorem base_segments_kept_witness:
  "[''sample'', ''bed'', ''gz''] \<noteq> []
   \<and> join_with ''.'' [''sample'', ''bed'', ''gz''] = ''sample.bed.gz''
   \<and> base_segments ''sample.bed.gz'' = [''sample'']
   \<and> bedgraph_base ''sample.bed.gz'' = ''sample''"
proof -
  have h1: "[''sample'', ''bed'', ''gz''] \<noteq> []" by simp
  have h2: "\<forall>s \<in> set [''sample'', ''bed'', ''gz'']. CHR ''.'' \<notin> set s \<and> CHR ''/'' \<notin> set s"
    by simp
  have j: "join_with ''.'' [''sample'', ''bed'', ''gz''] = ''sample.bed.gz''" by simp
  show ?thesis
    using base_segments_kept [OF h1 h2, of "[]"] unfolding j by simp
qed

end
